theory Spec2Isabelle
  imports Complex_Main "HOL-Library.Char_ord" "HOL-Library.List_Lexorder"
    "HOL-Library.Option_ord" "HOL-Library.Product_Lexorder"
begin

unbundle bit_operations_syntax

section \<open>The ledger core of src/engine/Transaction.c\<close>

text \<open>
  A shallow embedding of Transaction.c.  Pointers are addresses (\<open>nat\<close>) into three
  stores, one per struct; \<open>None\<close> is the NULL pointer.  A failed \<open>assert\<close> (assert.h,
  active unless NDEBUG) stops the model with \<open>AssertFailed\<close>, a dereference of NULL or of
  a freed address with \<open>BadPointer\<close>, a read behind the NULL terminator of a split array
  with \<open>OutOfBounds\<close>.  What the code prints, and every call into the Account and
  TransLog collaborators, is recorded in the field \<open>journal\<close>.
\<close>

subsection \<open>Doubles\<close>

text \<open>
  A \<open>double\<close> is a finite value, kept as an exact rational, or \<open>NonFinite\<close>, which stands
  for an infinity or a NaN.  Arithmetic on finite values is exact: rounding and overflow
  are outside the model.  A division by zero does not stop anything, as in C: its result
  is non-finite, and so is every sum, product, quotient and negation that has a non-finite
  operand.  The only divisor and the only second factor in Transaction.c is a share price.
  A share price is a finite double in the model (type \<open>rat\<close>): the quotient of a finite
  value by an infinite or NaN price would be a zero or a NaN, which \<open>NonFinite\<close> cannot
  tell apart, so the price setters take finite prices only.
\<close>

datatype double = Finite rat | NonFinite

instantiation double :: comm_monoid_add
begin

definition zero_double :: double where
  "zero_double = Finite 0"

definition plus_double :: "double \<Rightarrow> double \<Rightarrow> double" where
  "plus_double a b =
     (case a of
        Finite x \<Rightarrow> (case b of Finite y \<Rightarrow> Finite (x + y) | NonFinite \<Rightarrow> NonFinite)
      | NonFinite \<Rightarrow> NonFinite)"

instance
proof
  fix a b c :: double
  show "a + b + c = a + (b + c)"
    by (cases a; cases b; cases c) (simp_all add: plus_double_def)
  show "a + b = b + a"
    by (cases a; cases b) (simp_all add: plus_double_def)
  show "0 + a = a"
    by (cases a) (simp_all add: plus_double_def zero_double_def)
qed

end

instantiation double :: uminus
begin

definition uminus_double :: "double \<Rightarrow> double" where
  "uminus_double a = (case a of Finite x \<Rightarrow> Finite (- x) | NonFinite \<Rightarrow> NonFinite)"

instance ..

end

definition double_times :: "double \<Rightarrow> rat \<Rightarrow> double" where
  "double_times a p = (case a of Finite x \<Rightarrow> Finite (x * p) | NonFinite \<Rightarrow> NonFinite)"

definition double_divide :: "double \<Rightarrow> rat \<Rightarrow> double" where
  "double_divide a p =
     (case a of
        Finite x \<Rightarrow> if p = 0 then NonFinite else Finite (x / p)
      | NonFinite \<Rightarrow> NonFinite)"

subsection \<open>Data model\<close>

type_synonym cstring = "string option"

datatype error = AssertFailed | BadPointer | OutOfBounds | OutOfFuel

datatype event =
    OpenLog
  | WriteLog nat char
  | AccountRemoveSplit "nat option" nat
  | AccountInsertSplit "nat option" nat
  | AccountRecomputeBalance "nat option"
  | CheckDateOrder "nat option" nat
  | NotOpenForEditing nat
  | InappropriateBaseCurrency nat
  | SplitDestroyTrace nat int nat

record Timespec =
  tv_sec :: int
  tv_nsec :: int

text \<open>
  The Account struct is declared in AccountP.h, which is not in the tree; the model keeps
  the fields Transaction.c reads or writes.  \<open>acc_defer\<close> is the bit
  \<open>ACC_DEFER_REBALANCE & acc->open\<close>.
\<close>

record Account =
  currency :: cstring
  security :: cstring
  acc_defer :: bool
  changed :: bool

text \<open>
  Split and Transaction are declared in TransactionP.h (not in the tree); the fields are
  those xaccInitSplit and xaccInitTransaction initialise.  \<open>splits\<close> is the
  NULL-terminated array \<open>trans->splits\<close> without its terminator; the array pointer itself
  is never NULL after xaccInitTransaction.
\<close>

record Split =
  acc_ptr :: "nat option"
  parent :: "nat option"
  memo :: cstring
  action :: cstring
  docref :: cstring
  reconciled :: char
  damount :: double
  share_price :: rat
  date_reconciled :: Timespec
  balance :: double
  cleared_balance :: double
  reconciled_balance :: double
  share_balance :: double
  share_cleared_balance :: double
  share_reconciled_balance :: double

record Transaction =
  date_entered :: Timespec
  date_posted :: Timespec
  num :: cstring
  description :: cstring
  trans_docref :: cstring
  splits :: "nat list"
  open_flags :: int

record engine =
  split_heap :: "nat \<rightharpoonup> Split"
  trans_heap :: "nat \<rightharpoonup> Transaction"
  acc_heap :: "nat \<rightharpoonup> Account"
  next_ptr :: nat
  force_double_entry :: int
  journal :: "event list"

definition BEGIN_EDIT :: int where
  "BEGIN_EDIT = 1"

definition DEFER_REBALANCE :: int where
  "DEFER_REBALANCE = 2"

text \<open>NREC is a constant of Transaction.h (not in the tree): the not-reconciled state.\<close>

definition NREC :: char where
  "NREC = CHR ''n''"

definition bind_result :: "error + 'a \<Rightarrow> ('a \<Rightarrow> error + 'b) \<Rightarrow> error + 'b" where
  "bind_result m f = (case m of Inl e \<Rightarrow> Inl e | Inr x \<Rightarrow> f x)"

definition get_split :: "engine \<Rightarrow> nat option \<Rightarrow> error + Split" where
  "get_split h p = (case p of None \<Rightarrow> Inl BadPointer
     | Some i \<Rightarrow> (case split_heap h i of None \<Rightarrow> Inl BadPointer | Some S \<Rightarrow> Inr S))"

definition get_trans :: "engine \<Rightarrow> nat option \<Rightarrow> error + Transaction" where
  "get_trans h p = (case p of None \<Rightarrow> Inl BadPointer
     | Some i \<Rightarrow> (case trans_heap h i of None \<Rightarrow> Inl BadPointer | Some T \<Rightarrow> Inr T))"

definition get_acc :: "engine \<Rightarrow> nat option \<Rightarrow> error + Account" where
  "get_acc h p = (case p of None \<Rightarrow> Inl BadPointer
     | Some i \<Rightarrow> (case acc_heap h i of None \<Rightarrow> Inl BadPointer | Some A \<Rightarrow> Inr A))"

definition put_split :: "engine \<Rightarrow> nat \<Rightarrow> Split \<Rightarrow> engine" where
  "put_split h i S = h\<lparr>split_heap := (split_heap h)(i \<mapsto> S)\<rparr>"

definition put_trans :: "engine \<Rightarrow> nat \<Rightarrow> Transaction \<Rightarrow> engine" where
  "put_trans h i T = h\<lparr>trans_heap := (trans_heap h)(i \<mapsto> T)\<rparr>"

definition emit :: "engine \<Rightarrow> event \<Rightarrow> engine" where
  "emit h e = h\<lparr>journal := journal h @ [e]\<rparr>"

text \<open>
  \<open>sarray[i]\<close> on a NULL-terminated array: the element, the terminator at
  \<open>i = length\<close>, and behind it a read out of bounds (xaccTransAppendSplit allocates the
  elements and the terminator only) or, in the three-slot array of xaccInitTransaction, of
  a slot that was never written.
\<close>

definition array_read :: "nat list \<Rightarrow> nat \<Rightarrow> error + nat option" where
  "array_read xs i =
     (if i < length xs then Inr (Some (xs ! i))
      else if i = length xs then Inr None
      else Inl OutOfBounds)"

subsection \<open>String comparison\<close>

text \<open>
  strcmp of the C library, up to the magnitude of its result: bytes compare as unsigned
  chars, a proper prefix is smaller.
\<close>

definition strcmp :: "string \<Rightarrow> string \<Rightarrow> int" where
  "strcmp a b = (if a < b then - 1 else if a = b then 0 else 1)"

text \<open>
  Modelled from the spec: safe_strcmp and the macro SAFE_STRCMP belong to util.h and
  util.c, which are not in the tree.  The spec calls the comparison lexicographic and
  NULL-safe, an absent string sorting before a present one.
\<close>

definition safe_strcmp :: "cstring \<Rightarrow> cstring \<Rightarrow> int" where
  "safe_strcmp da db =
     (case da of
        None \<Rightarrow> (case db of None \<Rightarrow> 0 | Some b \<Rightarrow> - 1)
      | Some a \<Rightarrow> (case db of None \<Rightarrow> 1 | Some b \<Rightarrow> strcmp a b))"

text \<open>
  The macro SAFE_STRCMP returns from the enclosing function when the strings differ and
  falls through to \<open>rest\<close> otherwise.
\<close>

definition SAFE_STRCMP :: "cstring \<Rightarrow> cstring \<Rightarrow> int \<Rightarrow> int" where
  "SAFE_STRCMP da db rest = (let retval = safe_strcmp da db in if retval \<noteq> 0 then retval else rest)"

text \<open>
  Modelled from the spec: DEQ is a macro of util.h (not in the tree).  The spec reads
  \<open>! DEQ (0.0, damount)\<close> as "the quantity is non-zero"; an infinity or a NaN is not
  equal to anything.
\<close>

definition DEQ :: "double \<Rightarrow> double \<Rightarrow> bool" where
  "DEQ x y =
     (case x of
        Finite a \<Rightarrow> (case y of Finite b \<Rightarrow> a = b | NonFinite \<Rightarrow> False)
      | NonFinite \<Rightarrow> False)"

subsection \<open>Construction\<close>

definition xaccInitSplit :: Split where
  "xaccInitSplit =
     \<lparr> acc_ptr = None, parent = None, memo = Some [], action = Some [], docref = Some [],
       reconciled = NREC, damount = 0, share_price = 1,
       date_reconciled = \<lparr> tv_sec = 0, tv_nsec = 0 \<rparr>,
       balance = 0, cleared_balance = 0, reconciled_balance = 0,
       share_balance = 0, share_cleared_balance = 0, share_reconciled_balance = 0 \<rparr>"

definition xaccMallocSplit :: "engine \<Rightarrow> nat \<times> engine" where
  "xaccMallocSplit h =
     (next_ptr h, h\<lparr>split_heap := (split_heap h)(next_ptr h \<mapsto> xaccInitSplit),
                     next_ptr := Suc (next_ptr h)\<rparr>)"

definition xaccFreeSplit :: "engine \<Rightarrow> nat option \<Rightarrow> error + engine" where
  "xaccFreeSplit h split =
     (case split of None \<Rightarrow> Inr h
      | Some s \<Rightarrow> (case split_heap h s of None \<Rightarrow> Inl BadPointer
          | Some S \<Rightarrow> Inr (h\<lparr>split_heap := (split_heap h)(s := None)\<rparr>)))"

definition xaccMallocTransaction :: "engine \<Rightarrow> nat \<times> engine" where
  "xaccMallocTransaction h =
     (let t = next_ptr h;
          h1 = h\<lparr>next_ptr := Suc t\<rparr>;
          (s, h2) = xaccMallocSplit h1;
          h3 = put_split h2 s (xaccInitSplit\<lparr>parent := Some t\<rparr>)
      in (t, put_trans h3 t
            \<lparr> date_entered = \<lparr> tv_sec = 0, tv_nsec = 0 \<rparr>,
              date_posted = \<lparr> tv_sec = 0, tv_nsec = 0 \<rparr>,
              num = Some [], description = Some [], trans_docref = Some [],
              splits = [s], open_flags = 0 \<rparr>))"

fun xaccFreeTransaction_loop :: "engine \<Rightarrow> nat list \<Rightarrow> error + engine" where
  "xaccFreeTransaction_loop h [] = Inr h"
| "xaccFreeTransaction_loop h (s # rest) =
     bind_result (xaccFreeSplit h (Some s)) (\<lambda>h1. xaccFreeTransaction_loop h1 rest)"

definition xaccFreeTransaction :: "engine \<Rightarrow> nat option \<Rightarrow> error + engine" where
  "xaccFreeTransaction h tr =
     (case tr of None \<Rightarrow> Inr h
      | Some t \<Rightarrow> bind_result (get_trans h tr) (\<lambda>T.
          bind_result (xaccFreeTransaction_loop h (splits T)) (\<lambda>h1.
            Inr (h1\<lparr>trans_heap := (trans_heap h1)(t := None)\<rparr>))))"

subsection \<open>Marking accounts\<close>

definition MARK_SPLIT :: "engine \<Rightarrow> nat \<Rightarrow> error + engine" where
  "MARK_SPLIT h s =
     bind_result (get_split h (Some s)) (\<lambda>S.
       case acc_ptr S of None \<Rightarrow> Inr h
       | Some a \<Rightarrow> bind_result (get_acc h (Some a)) (\<lambda>A.
           Inr (h\<lparr>acc_heap := (acc_heap h)(a \<mapsto> A\<lparr>changed := True\<rparr>)\<rparr>)))"

fun MarkChanged_loop :: "engine \<Rightarrow> nat list \<Rightarrow> error + engine" where
  "MarkChanged_loop h [] = Inr h"
| "MarkChanged_loop h (s # rest) =
     bind_result (MARK_SPLIT h s) (\<lambda>h1. MarkChanged_loop h1 rest)"

definition MarkChanged :: "engine \<Rightarrow> nat \<Rightarrow> error + engine" where
  "MarkChanged h t = bind_result (get_trans h (Some t)) (\<lambda>T. MarkChanged_loop h (splits T))"

fun xaccCountSplits_loop :: "nat list \<Rightarrow> int \<Rightarrow> int" where
  "xaccCountSplits_loop [] nsplit = nsplit"
| "xaccCountSplits_loop (s # rest) nsplit = xaccCountSplits_loop rest (nsplit + 1)"

definition xaccCountSplits :: "nat list option \<Rightarrow> int" where
  "xaccCountSplits tarray = (case tarray of None \<Rightarrow> 0 | Some xs \<Rightarrow> xaccCountSplits_loop xs 0)"

subsection \<open>The Account and TransLog collaborators\<close>

text \<open>
  Modelled from the spec: Account.c and TransLog.c are not in the tree.  The spec has
  insertSplit attach a split to an account and removeSplit detach it, recomputeBalance
  and checkDateOrder write only the balance caches and the account's own ordering, which
  this file never reads, and the journal be fire-and-forget.  Each call is recorded; a
  call on a NULL account changes nothing.
\<close>

definition xaccAccountRemoveSplit :: "engine \<Rightarrow> nat option \<Rightarrow> nat \<Rightarrow> error + engine" where
  "xaccAccountRemoveSplit h a s =
     (let h1 = emit h (AccountRemoveSplit a s) in
      case a of None \<Rightarrow> Inr h1
      | Some _ \<Rightarrow> bind_result (get_split h1 (Some s)) (\<lambda>S.
          Inr (put_split h1 s (S\<lparr>acc_ptr := None\<rparr>))))"

definition xaccAccountInsertSplit :: "engine \<Rightarrow> nat option \<Rightarrow> nat \<Rightarrow> error + engine" where
  "xaccAccountInsertSplit h a s =
     (let h1 = emit h (AccountInsertSplit a s) in
      case a of None \<Rightarrow> Inr h1
      | Some _ \<Rightarrow> bind_result (get_split h1 (Some s)) (\<lambda>S.
          Inr (put_split h1 s (S\<lparr>acc_ptr := a\<rparr>))))"

definition xaccAccountRecomputeBalance :: "engine \<Rightarrow> nat option \<Rightarrow> engine" where
  "xaccAccountRecomputeBalance h a = emit h (AccountRecomputeBalance a)"

definition xaccCheckDateOrder :: "engine \<Rightarrow> nat option \<Rightarrow> nat \<Rightarrow> engine" where
  "xaccCheckDateOrder h a s = emit h (CheckDateOrder a s)"

definition xaccOpenLog :: "engine \<Rightarrow> engine" where
  "xaccOpenLog h = emit h OpenLog"

definition xaccTransWriteLog :: "engine \<Rightarrow> nat \<Rightarrow> char \<Rightarrow> engine" where
  "xaccTransWriteLog h t flag = emit h (WriteLog t flag)"

subsection \<open>Base values\<close>

definition xaccSplitSetBaseValue :: "engine \<Rightarrow> nat option \<Rightarrow> double \<Rightarrow> cstring \<Rightarrow> error + engine" where
  "xaccSplitSetBaseValue h sp val base_currency =
     (case sp of None \<Rightarrow> Inr h
      | Some s \<Rightarrow> bind_result (get_split h sp) (\<lambda>S.
          case acc_ptr S of
            None \<Rightarrow>
              if force_double_entry h \<noteq> 0 then Inl AssertFailed
              else Inr (put_split h s (S\<lparr>damount := double_divide val (share_price S)\<rparr>))
          | Some a \<Rightarrow> bind_result (get_acc h (Some a)) (\<lambda>A.
              if safe_strcmp (currency A) base_currency = 0
                then Inr (put_split h s (S\<lparr>damount := double_divide val (share_price S)\<rparr>))
              else if safe_strcmp (security A) base_currency = 0
                then Inr (put_split h s (S\<lparr>damount := val\<rparr>))
              else if base_currency = None \<and> force_double_entry h = 0
                then Inr (put_split h s (S\<lparr>damount := double_divide val (share_price S)\<rparr>))
              else Inr (emit h (InappropriateBaseCurrency s)))))"

text \<open>xaccSplitGetBaseValue writes nothing; the diagnostic it prints before returning 0.0
  for an inappropriate base currency is not recorded.\<close>

definition xaccSplitGetBaseValue :: "engine \<Rightarrow> nat option \<Rightarrow> cstring \<Rightarrow> error + double" where
  "xaccSplitGetBaseValue h sp base_currency =
     (case sp of None \<Rightarrow> Inr 0
      | Some s \<Rightarrow> bind_result (get_split h sp) (\<lambda>S.
          case acc_ptr S of
            None \<Rightarrow>
              if force_double_entry h \<noteq> 0 then Inl AssertFailed
              else Inr (double_times (damount S) (share_price S))
          | Some a \<Rightarrow> bind_result (get_acc h (Some a)) (\<lambda>A.
              if safe_strcmp (currency A) base_currency = 0
                then Inr (double_times (damount S) (share_price S))
              else if safe_strcmp (security A) base_currency = 0
                then Inr (damount S)
              else if base_currency = None \<and> force_double_entry h = 0
                then Inr (double_times (damount S) (share_price S))
              else Inr 0)))"

fun ComputeValue_loop :: "engine \<Rightarrow> nat list \<Rightarrow> nat option \<Rightarrow> cstring \<Rightarrow> double \<Rightarrow> error + double" where
  "ComputeValue_loop h [] skip_me base_currency val = Inr val"
| "ComputeValue_loop h (s # rest) skip_me base_currency val =
     (if Some s \<noteq> skip_me then
        bind_result (get_split h (Some s)) (\<lambda>S.
          case acc_ptr S of
            None \<Rightarrow>
              if force_double_entry h \<noteq> 0 then Inl AssertFailed
              else ComputeValue_loop h rest skip_me base_currency (val + double_times (damount S) (share_price S))
          | Some a \<Rightarrow> bind_result (get_acc h (Some a)) (\<lambda>A.
              if base_currency = None \<and> force_double_entry h = 0
                then ComputeValue_loop h rest skip_me base_currency (val + double_times (damount S) (share_price S))
              else if safe_strcmp (currency A) base_currency = 0
                then ComputeValue_loop h rest skip_me base_currency (val + double_times (damount S) (share_price S))
              else if safe_strcmp (security A) base_currency = 0
                then ComputeValue_loop h rest skip_me base_currency (val + damount S)
              else Inl AssertFailed))
      else ComputeValue_loop h rest skip_me base_currency val)"

definition ComputeValue :: "engine \<Rightarrow> nat list \<Rightarrow> nat option \<Rightarrow> cstring \<Rightarrow> error + double" where
  "ComputeValue h sarray skip_me base_currency = ComputeValue_loop h sarray skip_me base_currency 0"

subsection \<open>The rebalancer\<close>

definition empty_to_null :: "cstring \<Rightarrow> cstring" where
  "empty_to_null r = (if r = Some [] then None else r)"

text \<open>One pass of the body of the currency loop of xaccSplitRebalance over a split whose
  account has currency \<open>sa\<close> and (normalised) security \<open>sb\<close>.\<close>

definition common_currency_step :: "cstring \<Rightarrow> cstring \<Rightarrow> cstring \<Rightarrow> cstring \<Rightarrow> cstring \<times> cstring" where
  "common_currency_step ra rb sa sb =
     (if ra \<noteq> None \<and> rb \<noteq> None then
        (let aa = safe_strcmp ra sa; ab = safe_strcmp ra sb;
             ba = safe_strcmp rb sa; bb = safe_strcmp rb sb;
             (ra1, rb1) =
               (if aa = 0 \<and> bb \<noteq> 0 then (ra, None)
                else if ab = 0 \<and> ba \<noteq> 0 then (ra, None)
                else if ba = 0 \<and> ab \<noteq> 0 then (None, rb)
                else if bb = 0 \<and> aa \<noteq> 0 then (None, rb)
                else if aa \<noteq> 0 \<and> bb \<noteq> 0 \<and> ab \<noteq> 0 \<and> ba \<noteq> 0 then (None, None)
                else (ra, rb))
         in if ra1 = None then (rb1, None) else (ra1, rb1))
      else if ra \<noteq> None \<and> rb = None then
        (let aa = safe_strcmp ra sa; ab = safe_strcmp ra sb
         in if aa \<noteq> 0 \<and> ab \<noteq> 0 then (None, rb) else (ra, rb))
      else (ra, rb))"

fun common_currency_loop :: "engine \<Rightarrow> nat list \<Rightarrow> cstring \<Rightarrow> cstring \<Rightarrow> error + cstring \<times> cstring" where
  "common_currency_loop h [] ra rb = Inr (ra, rb)"
| "common_currency_loop h (s # rest) ra rb =
     (if force_double_entry h = 0 then common_currency_loop h rest ra rb
      else bind_result (get_split h (Some s)) (\<lambda>S.
        case acc_ptr S of
          None \<Rightarrow> Inl AssertFailed
        | Some a \<Rightarrow> bind_result (get_acc h (Some a)) (\<lambda>A.
            case common_currency_step ra rb (currency A) (empty_to_null (security A)) of
              (ra1, rb1) \<Rightarrow>
                if ra1 = None \<and> rb1 = None then Inl AssertFailed
                else common_currency_loop h rest ra1 rb1)))"

text \<open>The first half of xaccSplitRebalance, after the transaction's own deferral test:
  \<open>Inr None\<close> is the quiet return for a deferred account, \<open>Inr (Some ra)\<close> hands the
  base currency \<open>ra\<close> to the second half.\<close>

definition rebalance_base_currency :: "engine \<Rightarrow> Split \<Rightarrow> Transaction \<Rightarrow> error + cstring option" where
  "rebalance_base_currency h S T =
     (case acc_ptr S of
        None \<Rightarrow> if splits T = [] then Inl AssertFailed else Inr (Some None)
      | Some a \<Rightarrow> bind_result (get_acc h (Some a)) (\<lambda>A.
          if acc_defer A then Inr None
          else if splits T = [] then Inl AssertFailed
          else bind_result
                 (common_currency_loop h (splits T) (currency A) (empty_to_null (security A)))
                 (\<lambda>(ra, rb). Inr (Some ra))))"

text \<open>Forcing the total of the other splits onto split \<open>s\<close>: the four statements both
  branches of xaccSplitRebalance share.\<close>

definition force_total :: "engine \<Rightarrow> Transaction \<Rightarrow> nat \<Rightarrow> cstring \<Rightarrow> error + engine" where
  "force_total h T s base_currency =
     bind_result (ComputeValue h (splits T) (Some s) base_currency) (\<lambda>val.
     bind_result (xaccSplitSetBaseValue h (Some s) (- val) base_currency) (\<lambda>h1.
     bind_result (MARK_SPLIT h1 s) (\<lambda>h2.
     bind_result (get_split h2 (Some s)) (\<lambda>S.
       Inr (xaccAccountRecomputeBalance h2 (acc_ptr S))))))"

text \<open>xaccSplitRebalance and xaccTransAppendSplit call each other.  Each body takes the
  other function as its first argument; the two are tied together below by recursion on
  a call-depth bound.\<close>

text \<open>The innermost block of xaccSplitRebalance: a source split without a destination,
  under enforcement, gets a mirror split, appended to the transaction and inserted into
  the source split's account.\<close>

definition create_balancing_split ::
  "(engine \<Rightarrow> nat option \<Rightarrow> nat option \<Rightarrow> error + engine) \<Rightarrow> engine \<Rightarrow> nat \<Rightarrow> nat option \<Rightarrow> Split
     \<Rightarrow> error + engine" where
  "create_balancing_split append_split h t split S =
     (let val = double_times (damount S) (share_price S);
          (s, h1) = xaccMallocSplit h
      in if memo S = None \<or> action S = None then Inl BadPointer
         else
           (let h2 = put_split h1 s
                  (xaccInitSplit\<lparr>damount := - val, memo := memo S, action := action S\<rparr>)
            in bind_result (MARK_SPLIT h2 s) (\<lambda>h3.
               bind_result (append_split h3 (Some t) (Some s)) (\<lambda>h4.
               bind_result (get_split h4 split) (\<lambda>S4.
                 xaccAccountInsertSplit h4 (acc_ptr S4) s)))))"

definition xaccSplitRebalance_body ::
  "(engine \<Rightarrow> nat option \<Rightarrow> nat option \<Rightarrow> error + engine) \<Rightarrow> engine \<Rightarrow> nat option \<Rightarrow> error + engine" where
  "xaccSplitRebalance_body append_split h split =
     bind_result (get_split h split) (\<lambda>S.
       case parent S of None \<Rightarrow> Inr h
       | Some t \<Rightarrow> bind_result (get_trans h (Some t)) (\<lambda>T.
           if DEFER_REBALANCE AND open_flags T \<noteq> 0 then Inr h
           else bind_result (rebalance_base_currency h S T) (\<lambda>r.
             case r of None \<Rightarrow> Inr h
             | Some base_currency \<Rightarrow>
                 if split = Some (hd (splits T)) then
                   bind_result (array_read (splits T) 1) (\<lambda>s1.
                     case s1 of
                       Some s \<Rightarrow> force_total h T s base_currency
                     | None \<Rightarrow>
                         if force_double_entry h \<noteq> 0 \<and> \<not> DEQ 0 (damount S)
                         then create_balancing_split append_split h t split S
                         else Inr h)
                 else force_total h T (hd (splits T)) base_currency)))"

fun xaccTransRemoveSplit_loop :: "nat \<Rightarrow> nat list \<Rightarrow> nat list" where
  "xaccTransRemoveSplit_loop split [] = []"
| "xaccTransRemoveSplit_loop split (s # rest) =
     (if split = s then xaccTransRemoveSplit_loop split rest
      else s # xaccTransRemoveSplit_loop split rest)"

definition xaccTransRemoveSplit :: "engine \<Rightarrow> nat option \<Rightarrow> nat option \<Rightarrow> error + engine" where
  "xaccTransRemoveSplit h tr split =
     (case split of None \<Rightarrow> Inr h
      | Some s \<Rightarrow>
         (case tr of None \<Rightarrow> Inr h
          | Some t \<Rightarrow> bind_result (get_split h split) (\<lambda>S.
              let h1 = put_split h s (S\<lparr>parent := None\<rparr>) in
              bind_result (get_trans h1 tr) (\<lambda>T.
                Inr (put_trans h1 t (T\<lparr>splits := xaccTransRemoveSplit_loop s (splits T)\<rparr>))))))"

definition CHECK_OPEN :: "engine \<Rightarrow> nat \<Rightarrow> error + engine" where
  "CHECK_OPEN h t =
     bind_result (get_trans h (Some t)) (\<lambda>T.
       Inr (if open_flags T = 0 then emit h (NotOpenForEditing t) else h))"

definition xaccTransRebalance_with ::
  "(engine \<Rightarrow> nat option \<Rightarrow> error + engine) \<Rightarrow> engine \<Rightarrow> nat option \<Rightarrow> error + engine" where
  "xaccTransRebalance_with rebalance h tr =
     bind_result (get_trans h tr) (\<lambda>T.
     bind_result (array_read (splits T) 0) (\<lambda>s0. rebalance h s0))"

definition xaccTransAppendSplit_body ::
  "(engine \<Rightarrow> nat option \<Rightarrow> error + engine) \<Rightarrow> engine \<Rightarrow> nat option \<Rightarrow> nat option \<Rightarrow> error + engine" where
  "xaccTransAppendSplit_body rebalance h tr split =
     (case tr of None \<Rightarrow> Inr h
      | Some t \<Rightarrow>
         (case split of None \<Rightarrow> Inr h
          | Some s \<Rightarrow>
              bind_result (CHECK_OPEN h t) (\<lambda>h1.
              bind_result (get_split h1 split) (\<lambda>S.
              bind_result
                (case parent S of None \<Rightarrow> Inr h1
                 | Some oldtrans \<Rightarrow>
                     bind_result (xaccTransRemoveSplit h1 (Some oldtrans) split) (\<lambda>h2.
                       xaccTransRebalance_with rebalance h2 (Some oldtrans)))
                (\<lambda>h3.
              bind_result (get_split h3 split) (\<lambda>S3.
              let h4 = put_split h3 s (S3\<lparr>parent := tr\<rparr>) in
              bind_result (get_trans h4 tr) (\<lambda>T.
              let h5 = put_trans h4 t (T\<lparr>splits := splits T @ [s]\<rparr>) in
                rebalance h5 split)))))))"

text \<open>The first argument bounds the depth of the mutual calls; a computation that
  exhausts it stops with \<open>OutOfFuel\<close>.  The source needs depth 4 at most
  (append, rebalance of the old transaction, append of a balancing split, rebalance).\<close>

fun xaccSplitRebalance :: "nat \<Rightarrow> engine \<Rightarrow> nat option \<Rightarrow> error + engine"
  and xaccTransAppendSplit :: "nat \<Rightarrow> engine \<Rightarrow> nat option \<Rightarrow> nat option \<Rightarrow> error + engine" where
  "xaccSplitRebalance 0 h split = Inl OutOfFuel"
| "xaccSplitRebalance (Suc n) h split = xaccSplitRebalance_body (xaccTransAppendSplit n) h split"
| "xaccTransAppendSplit 0 h tr split = Inl OutOfFuel"
| "xaccTransAppendSplit (Suc n) h tr split = xaccTransAppendSplit_body (xaccSplitRebalance n) h tr split"

definition xaccTransRebalance :: "nat \<Rightarrow> engine \<Rightarrow> nat option \<Rightarrow> error + engine" where
  "xaccTransRebalance n h tr = xaccTransRebalance_with (xaccSplitRebalance n) h tr"

subsection \<open>Quantity and price setters\<close>

definition xaccSplitSetSharePriceAndAmount ::
  "nat \<Rightarrow> engine \<Rightarrow> nat \<Rightarrow> rat \<Rightarrow> double \<Rightarrow> error + engine" where
  "xaccSplitSetSharePriceAndAmount n h s price amt =
     bind_result (MARK_SPLIT h s) (\<lambda>h1.
     bind_result (get_split h1 (Some s)) (\<lambda>S.
       xaccSplitRebalance n (put_split h1 s (S\<lparr>share_price := price, damount := amt\<rparr>)) (Some s)))"

definition xaccSplitSetSharePrice :: "nat \<Rightarrow> engine \<Rightarrow> nat \<Rightarrow> rat \<Rightarrow> error + engine" where
  "xaccSplitSetSharePrice n h s amt =
     bind_result (MARK_SPLIT h s) (\<lambda>h1.
     bind_result (get_split h1 (Some s)) (\<lambda>S.
       xaccSplitRebalance n (put_split h1 s (S\<lparr>share_price := amt\<rparr>)) (Some s)))"

definition xaccSplitSetShareAmount :: "nat \<Rightarrow> engine \<Rightarrow> nat \<Rightarrow> double \<Rightarrow> error + engine" where
  "xaccSplitSetShareAmount n h s amt =
     bind_result (MARK_SPLIT h s) (\<lambda>h1.
     bind_result (get_split h1 (Some s)) (\<lambda>S.
       xaccSplitRebalance n (put_split h1 s (S\<lparr>damount := amt\<rparr>)) (Some s)))"

definition xaccSplitSetValue :: "nat \<Rightarrow> engine \<Rightarrow> nat \<Rightarrow> double \<Rightarrow> error + engine" where
  "xaccSplitSetValue n h s amt =
     bind_result (MARK_SPLIT h s) (\<lambda>h1.
     bind_result (get_split h1 (Some s)) (\<lambda>S.
       xaccSplitRebalance n
         (put_split h1 s (S\<lparr>damount := double_divide amt (share_price S)\<rparr>)) (Some s)))"

subsection \<open>Edit sessions\<close>

definition xaccTransBeginEdit :: "engine \<Rightarrow> nat option \<Rightarrow> int \<Rightarrow> error + engine" where
  "xaccTransBeginEdit h tr defer =
     (case tr of None \<Rightarrow> Inl AssertFailed
      | Some t \<Rightarrow> bind_result (get_trans h tr) (\<lambda>T.
          let flags = (if defer \<noteq> 0 then BEGIN_EDIT OR DEFER_REBALANCE else BEGIN_EDIT);
              h1 = put_trans h t (T\<lparr>open_flags := flags\<rparr>)
          in Inr (xaccTransWriteLog (xaccOpenLog h1) t CHR ''B'')))"

fun xaccTransCommitEdit_check_loop :: "engine \<Rightarrow> nat list \<Rightarrow> error + engine" where
  "xaccTransCommitEdit_check_loop h [] = Inr h"
| "xaccTransCommitEdit_check_loop h (s # rest) =
     bind_result (get_split h (Some s)) (\<lambda>S.
       xaccTransCommitEdit_check_loop (xaccCheckDateOrder h (acc_ptr S) s) rest)"

fun xaccTransCommitEdit_balance_loop :: "engine \<Rightarrow> nat list \<Rightarrow> error + engine" where
  "xaccTransCommitEdit_balance_loop h [] = Inr h"
| "xaccTransCommitEdit_balance_loop h (s # rest) =
     bind_result (get_split h (Some s)) (\<lambda>S.
       xaccTransCommitEdit_balance_loop (xaccAccountRecomputeBalance h (acc_ptr S)) rest)"

definition xaccTransCommitEdit :: "nat \<Rightarrow> engine \<Rightarrow> nat option \<Rightarrow> error + engine" where
  "xaccTransCommitEdit n h tr =
     (case tr of None \<Rightarrow> Inr h
      | Some t \<Rightarrow>
          bind_result (CHECK_OPEN h t) (\<lambda>h1.
          bind_result (get_trans h1 tr) (\<lambda>T.
          let h2 = put_trans h1 t (T\<lparr>open_flags := open_flags T AND NOT DEFER_REBALANCE\<rparr>) in
          bind_result (xaccTransRebalance n h2 tr) (\<lambda>h3.
          bind_result (get_trans h3 tr) (\<lambda>T3.
          bind_result (xaccTransCommitEdit_check_loop h3 (splits T3)) (\<lambda>h4.
          bind_result (get_trans h4 tr) (\<lambda>T4.
          bind_result (xaccTransCommitEdit_balance_loop h4 (splits T4)) (\<lambda>h5.
          bind_result (get_trans h5 tr) (\<lambda>T5.
            Inr (xaccTransWriteLog (put_trans h5 t (T5\<lparr>open_flags := 0\<rparr>)) t CHR ''C''))))))))))"

text \<open>The three statements that detach one split from its account, as xaccTransDestroy
  and the teardown branch of xaccSplitDestroy write them.\<close>

definition detach_split :: "engine \<Rightarrow> nat \<Rightarrow> error + engine" where
  "detach_split h s =
     bind_result (MARK_SPLIT h s) (\<lambda>h1.
     bind_result (get_split h1 (Some s)) (\<lambda>S.
     bind_result (xaccAccountRemoveSplit h1 (acc_ptr S) s) (\<lambda>h2.
       Inr (xaccAccountRecomputeBalance h2 (acc_ptr S)))))"

fun xaccTransDestroy_loop :: "engine \<Rightarrow> nat list \<Rightarrow> error + engine" where
  "xaccTransDestroy_loop h [] = Inr h"
| "xaccTransDestroy_loop h (s # rest) =
     bind_result (detach_split h s) (\<lambda>h1. xaccTransDestroy_loop h1 rest)"

definition xaccTransDestroy :: "engine \<Rightarrow> nat option \<Rightarrow> error + engine" where
  "xaccTransDestroy h tr =
     (case tr of None \<Rightarrow> Inr h
      | Some t \<Rightarrow>
          bind_result (CHECK_OPEN h t) (\<lambda>h1.
          let h2 = xaccTransWriteLog h1 t CHR ''D'' in
          bind_result (get_trans h2 tr) (\<lambda>T.
          bind_result (xaccTransDestroy_loop h2 (splits T)) (\<lambda>h3.
            xaccFreeTransaction h3 tr))))"

subsection \<open>Split removal\<close>

fun xaccSplitDestroy_loop ::
  "engine \<Rightarrow> nat \<Rightarrow> nat \<Rightarrow> nat list \<Rightarrow> bool \<Rightarrow> int \<Rightarrow> error + engine \<times> bool \<times> int" where
  "xaccSplitDestroy_loop h t split [] ismember numsplits = Inr (h, ismember, numsplits)"
| "xaccSplitDestroy_loop h t split (s # rest) ismember numsplits =
     bind_result (MARK_SPLIT (emit h (SplitDestroyTrace t numsplits s)) s) (\<lambda>h1.
       xaccSplitDestroy_loop h1 t split rest (ismember \<or> s = split) (numsplits + 1))"

text \<open>The two branches of xaccSplitDestroy: unlinking one split of three or more, and
  tearing the whole transaction down.\<close>

definition xaccSplitDestroy_unlink :: "nat \<Rightarrow> engine \<Rightarrow> nat \<Rightarrow> nat \<Rightarrow> error + engine" where
  "xaccSplitDestroy_unlink n h t s =
     bind_result (MARK_SPLIT h s) (\<lambda>h3.
     bind_result (xaccTransRemoveSplit h3 (Some t) (Some s)) (\<lambda>h4.
     bind_result (get_split h4 (Some s)) (\<lambda>S4.
     bind_result (xaccAccountRemoveSplit h4 (acc_ptr S4) s) (\<lambda>h5.
     bind_result (xaccFreeSplit (xaccAccountRecomputeBalance h5 (acc_ptr S4)) (Some s)) (\<lambda>h6.
       xaccTransRebalance n h6 (Some t))))))"

definition xaccSplitDestroy_teardown :: "engine \<Rightarrow> nat \<Rightarrow> error + engine" where
  "xaccSplitDestroy_teardown h t =
     (let h3 = xaccTransWriteLog h t CHR ''D'' in
      bind_result (get_trans h3 (Some t)) (\<lambda>T3.
      bind_result (array_read (splits T3) 0) (\<lambda>s0.
        case s0 of None \<Rightarrow> Inl BadPointer
        | Some s \<Rightarrow>
            bind_result (detach_split h3 s) (\<lambda>h4.
            bind_result (array_read (splits T3) 1) (\<lambda>s1.
              case s1 of None \<Rightarrow> Inr h4
              | Some s \<Rightarrow>
                  bind_result (detach_split h4 s) (\<lambda>h5.
                    xaccFreeTransaction h5 (Some t)))))))"

definition xaccSplitDestroy :: "nat \<Rightarrow> engine \<Rightarrow> nat option \<Rightarrow> error + engine" where
  "xaccSplitDestroy n h split =
     (case split of None \<Rightarrow> Inl BadPointer
      | Some s \<Rightarrow>
          bind_result (get_split h split) (\<lambda>S.
            case parent S of None \<Rightarrow> Inl AssertFailed
            | Some t \<Rightarrow>
               bind_result (get_trans h (Some t)) (\<lambda>T.
               bind_result (CHECK_OPEN h t) (\<lambda>h1.
               bind_result (xaccSplitDestroy_loop h1 t s (splits T) False 0)
                 (\<lambda>(h2, ismember, numsplits).
                    if \<not> ismember then Inl AssertFailed
                    else if 2 < numsplits then xaccSplitDestroy_unlink n h2 t s
                    else xaccSplitDestroy_teardown h2 t)))))"

subsection \<open>Canonical ordering\<close>

definition xaccTransOrder :: "Transaction option \<Rightarrow> Transaction option \<Rightarrow> int" where
  "xaccTransOrder ta tb =
     (case (ta, tb) of
        (Some a, None) \<Rightarrow> - 1
      | (None, Some b) \<Rightarrow> 1
      | (None, None) \<Rightarrow> 0
      | (Some a, Some b) \<Rightarrow>
          if tv_sec (date_posted a) < tv_sec (date_posted b) then - 1
          else if tv_sec (date_posted a) > tv_sec (date_posted b) then 1
          else if tv_nsec (date_posted a) < tv_nsec (date_posted b) then - 1
          else if tv_nsec (date_posted a) > tv_nsec (date_posted b) then 1
          else SAFE_STRCMP (num a) (num b)
                 (SAFE_STRCMP (description a) (description b) 0))"

definition deref_parent :: "engine \<Rightarrow> Split \<Rightarrow> error + Transaction option" where
  "deref_parent h S =
     (case parent S of None \<Rightarrow> Inr None
      | Some t \<Rightarrow> (case trans_heap h t of None \<Rightarrow> Inl BadPointer | Some T \<Rightarrow> Inr (Some T)))"

definition xaccSplitOrder :: "engine \<Rightarrow> Split option \<Rightarrow> Split option \<Rightarrow> error + int" where
  "xaccSplitOrder h sa sb =
     (case (sa, sb) of
        (Some a, None) \<Rightarrow> Inr (- 1)
      | (None, Some b) \<Rightarrow> Inr 1
      | (None, None) \<Rightarrow> Inr 0
      | (Some a, Some b) \<Rightarrow>
          bind_result (deref_parent h a) (\<lambda>ta.
          bind_result (deref_parent h b) (\<lambda>tb.
            let retval = xaccTransOrder ta tb in
            if 0 \<noteq> retval then Inr retval
            else Inr (SAFE_STRCMP (memo a) (memo b)
                        (SAFE_STRCMP (action a) (action b) 0)))))"

subsection \<open>Transaction setters\<close>

fun xaccTransSetDateSecs_loop :: "engine \<Rightarrow> nat list \<Rightarrow> error + engine" where
  "xaccTransSetDateSecs_loop h [] = Inr h"
| "xaccTransSetDateSecs_loop h (s # rest) =
     bind_result (get_split h (Some s)) (\<lambda>S.
     bind_result (xaccAccountRemoveSplit h (acc_ptr S) s) (\<lambda>h1.
     bind_result (xaccAccountInsertSplit h1 (acc_ptr S) s) (\<lambda>h2.
       xaccTransSetDateSecs_loop h2 rest)))"

definition xaccTransSetDateSecs :: "engine \<Rightarrow> nat option \<Rightarrow> int \<Rightarrow> error + engine" where
  "xaccTransSetDateSecs h tr secs =
     (case tr of None \<Rightarrow> Inr h
      | Some t \<Rightarrow>
          bind_result (CHECK_OPEN h t) (\<lambda>h1.
          bind_result (get_trans h1 tr) (\<lambda>T.
          let h2 = put_trans h1 t
                (T\<lparr>date_entered := (date_entered T)\<lparr>tv_sec := secs\<rparr>,
                   date_posted := (date_posted T)\<lparr>tv_sec := secs\<rparr>\<rparr>)
          in xaccTransSetDateSecs_loop h2 (splits T))))"

definition xaccTransSetNum :: "engine \<Rightarrow> nat option \<Rightarrow> cstring \<Rightarrow> error + engine" where
  "xaccTransSetNum h tr xnum =
     (case tr of None \<Rightarrow> Inr h
      | Some t \<Rightarrow>
          bind_result (CHECK_OPEN h t) (\<lambda>h1.
          if xnum = None then Inl BadPointer
          else bind_result (get_trans h1 tr) (\<lambda>T.
            MarkChanged (put_trans h1 t (T\<lparr>num := xnum\<rparr>)) t)))"

definition xaccTransSetDescription :: "engine \<Rightarrow> nat option \<Rightarrow> cstring \<Rightarrow> error + engine" where
  "xaccTransSetDescription h tr desc =
     (case tr of None \<Rightarrow> Inr h
      | Some t \<Rightarrow>
          bind_result (CHECK_OPEN h t) (\<lambda>h1.
          if desc = None then Inl BadPointer
          else bind_result (get_trans h1 tr) (\<lambda>T.
            MarkChanged (put_trans h1 t (T\<lparr>description := desc\<rparr>)) t)))"

subsection \<open>Accessors\<close>

definition xaccSplitGetBalance :: "engine \<Rightarrow> nat option \<Rightarrow> error + double" where
  "xaccSplitGetBalance h s =
     (case s of None \<Rightarrow> Inr 0 | Some _ \<Rightarrow> bind_result (get_split h s) (\<lambda>S. Inr (balance S)))"

definition xaccSplitGetClearedBalance :: "engine \<Rightarrow> nat option \<Rightarrow> error + double" where
  "xaccSplitGetClearedBalance h s =
     (case s of None \<Rightarrow> Inr 0 | Some _ \<Rightarrow> bind_result (get_split h s) (\<lambda>S. Inr (cleared_balance S)))"

definition xaccSplitGetReconciledBalance :: "engine \<Rightarrow> nat option \<Rightarrow> error + double" where
  "xaccSplitGetReconciledBalance h s =
     (case s of None \<Rightarrow> Inr 0 | Some _ \<Rightarrow> bind_result (get_split h s) (\<lambda>S. Inr (reconciled_balance S)))"

definition xaccSplitGetShareBalance :: "engine \<Rightarrow> nat option \<Rightarrow> error + double" where
  "xaccSplitGetShareBalance h s =
     (case s of None \<Rightarrow> Inr 0 | Some _ \<Rightarrow> bind_result (get_split h s) (\<lambda>S. Inr (share_balance S)))"

definition xaccTransGetSplit :: "engine \<Rightarrow> nat option \<Rightarrow> int \<Rightarrow> error + nat option" where
  "xaccTransGetSplit h tr i =
     (case tr of None \<Rightarrow> Inr None
      | Some _ \<Rightarrow>
          if 0 > i then Inr None
          else bind_result (get_trans h tr) (\<lambda>T. array_read (splits T) (nat i)))"

definition xaccTransGetNum :: "engine \<Rightarrow> nat option \<Rightarrow> error + cstring" where
  "xaccTransGetNum h tr =
     (case tr of None \<Rightarrow> Inr None | Some _ \<Rightarrow> bind_result (get_trans h tr) (\<lambda>T. Inr (num T)))"

definition xaccTransGetDescription :: "engine \<Rightarrow> nat option \<Rightarrow> error + cstring" where
  "xaccTransGetDescription h tr =
     (case tr of None \<Rightarrow> Inr None | Some _ \<Rightarrow> bind_result (get_trans h tr) (\<lambda>T. Inr (description T)))"

definition xaccTransGetDate :: "engine \<Rightarrow> nat option \<Rightarrow> error + int" where
  "xaccTransGetDate h tr =
     (case tr of None \<Rightarrow> Inr 0
      | Some _ \<Rightarrow> bind_result (get_trans h tr) (\<lambda>T. Inr (tv_sec (date_posted T))))"

definition xaccTransCountSplits :: "engine \<Rightarrow> nat option \<Rightarrow> error + int" where
  "xaccTransCountSplits h tr =
     bind_result (get_trans h tr) (\<lambda>T. Inr (xaccCountSplits (Some (splits T))))"

definition xaccSplitGetParent :: "engine \<Rightarrow> nat option \<Rightarrow> error + nat option" where
  "xaccSplitGetParent h s =
     (case s of None \<Rightarrow> Inr None | Some _ \<Rightarrow> bind_result (get_split h s) (\<lambda>S. Inr (parent S)))"

definition xaccSplitGetAccount :: "engine \<Rightarrow> nat option \<Rightarrow> error + nat option" where
  "xaccSplitGetAccount h s =
     (case s of None \<Rightarrow> Inr None | Some _ \<Rightarrow> bind_result (get_split h s) (\<lambda>S. Inr (acc_ptr S)))"

definition xaccSplitGetMemo :: "engine \<Rightarrow> nat option \<Rightarrow> error + cstring" where
  "xaccSplitGetMemo h s =
     (case s of None \<Rightarrow> Inr None | Some _ \<Rightarrow> bind_result (get_split h s) (\<lambda>S. Inr (memo S)))"

definition xaccSplitGetAction :: "engine \<Rightarrow> nat option \<Rightarrow> error + cstring" where
  "xaccSplitGetAction h s =
     (case s of None \<Rightarrow> Inr None | Some _ \<Rightarrow> bind_result (get_split h s) (\<lambda>S. Inr (action S)))"

definition xaccSplitGetReconcile :: "engine \<Rightarrow> nat option \<Rightarrow> error + char" where
  "xaccSplitGetReconcile h s =
     (case s of None \<Rightarrow> Inr CHR '' ''
      | Some _ \<Rightarrow> bind_result (get_split h s) (\<lambda>S. Inr (reconciled S)))"

definition xaccSplitGetShareAmount :: "engine \<Rightarrow> nat option \<Rightarrow> error + double" where
  "xaccSplitGetShareAmount h s =
     (case s of None \<Rightarrow> Inr 0 | Some _ \<Rightarrow> bind_result (get_split h s) (\<lambda>S. Inr (damount S)))"

definition xaccSplitGetValue :: "engine \<Rightarrow> nat option \<Rightarrow> error + double" where
  "xaccSplitGetValue h s =
     (case s of None \<Rightarrow> Inr 0
      | Some _ \<Rightarrow> bind_result (get_split h s) (\<lambda>S. Inr (double_times (damount S) (share_price S))))"

definition xaccSplitGetSharePrice :: "engine \<Rightarrow> nat option \<Rightarrow> error + rat" where
  "xaccSplitGetSharePrice h s =
     (case s of None \<Rightarrow> Inr 1 | Some _ \<Rightarrow> bind_result (get_split h s) (\<lambda>S. Inr (share_price S)))"

subsection \<open>The canonical ordering as the specification words it\<close>

text \<open>
  One key of the specification's ordering: ascending, and \<open>rest\<close> decides when the key
  does not differentiate.  Strings compare lexicographically by byte, an absent string
  before a present one.
\<close>

definition compare_key :: "'a::linorder \<Rightarrow> 'a \<Rightarrow> int \<Rightarrow> int" where
  "compare_key a b rest = (if a < b then - 1 else if b < a then 1 else rest)"

definition canonical_order :: "Transaction option \<Rightarrow> Transaction option \<Rightarrow> int" where
  "canonical_order ta tb =
     (case ta of
        None \<Rightarrow> (case tb of None \<Rightarrow> 0 | Some b \<Rightarrow> 1)
      | Some a \<Rightarrow>
         (case tb of
            None \<Rightarrow> - 1
          | Some b \<Rightarrow>
              compare_key (tv_sec (date_posted a)) (tv_sec (date_posted b))
             (compare_key (tv_nsec (date_posted a)) (tv_nsec (date_posted b))
             (compare_key (num a) (num b)
             (compare_key (description a) (description b) 0)))))"

definition canonical_key :: "Transaction \<Rightarrow> int \<times> int \<times> cstring \<times> cstring" where
  "canonical_key T = (tv_sec (date_posted T), tv_nsec (date_posted T), num T, description T)"

definition posted_time :: "Transaction \<Rightarrow> int \<times> int" where
  "posted_time T = (tv_sec (date_posted T), tv_nsec (date_posted T))"

subsection \<open>The zero-sum property as the specification words it\<close>






text \<open>Two states that give every split of every transaction the same value.\<close>

definition same_values :: "engine \<Rightarrow> engine \<Rightarrow> bool" where
  "same_values h h' =
     (split_heap h' = split_heap h
      \<and> (\<forall>t. map_option splits (trans_heap h' t) = map_option splits (trans_heap h t))
      \<and> (\<forall>a. map_option currency (acc_heap h' a) = map_option currency (acc_heap h a))
      \<and> (\<forall>a. map_option security (acc_heap h' a) = map_option security (acc_heap h a)))"

subsection \<open>The back-reference invariant\<close>

text \<open>
  Every split of every transaction's sequence is allocated and names that transaction as
  its parent.
\<close>

definition parent_inv :: "engine \<Rightarrow> bool" where
  "parent_inv h =
     (\<forall>t T. trans_heap h t = Some T \<longrightarrow>
        (\<forall>s\<in>set (splits T). \<exists>S. split_heap h s = Some S \<and> parent S = Some t))"

text \<open>Two states with the same transactions and the same parent field in every split.\<close>

definition same_structure :: "engine \<Rightarrow> engine \<Rightarrow> bool" where
  "same_structure h h' =
     (trans_heap h' = trans_heap h
      \<and> (\<forall>p. map_option parent (split_heap h' p) = map_option parent (split_heap h p)))"

subsection \<open>Well-formed states and sample states\<close>

text \<open>Every split of the list is allocated, and so is its account when it has one.\<close>

definition splits_valid :: "engine \<Rightarrow> nat list \<Rightarrow> bool" where
  "splits_valid h ss =
     list_all (\<lambda>s. case split_heap h s of None \<Rightarrow> False
        | Some S \<Rightarrow> (case acc_ptr S of None \<Rightarrow> True | Some a \<Rightarrow> acc_heap h a \<noteq> None)) ss"

definition empty_engine :: engine where
  "empty_engine =
     \<lparr> split_heap = Map.empty, trans_heap = Map.empty, acc_heap = Map.empty,
       next_ptr = 0, force_double_entry = 0, journal = [] \<rparr>"

text \<open>The state after one xaccMallocTransaction: transaction 0 with its source split 1.\<close>

definition fresh_ledger :: engine where
  "fresh_ledger = snd (xaccMallocTransaction empty_engine)"

definition sample_trans :: "int \<Rightarrow> int \<Rightarrow> Transaction" where
  "sample_trans sec nsec =
     \<lparr> date_entered = \<lparr> tv_sec = sec, tv_nsec = nsec \<rparr>,
       date_posted = \<lparr> tv_sec = sec, tv_nsec = nsec \<rparr>,
       num = Some ''7'', description = Some ''rent'', trans_docref = Some [],
       splits = [], open_flags = 0 \<rparr>"

definition usd_account :: Account where
  "usd_account = \<lparr> currency = Some ''USD'', security = Some [], acc_defer = False, changed = False \<rparr>"

definition usd_split :: Split where
  "usd_split = xaccInitSplit\<lparr>acc_ptr := Some 7, share_price := 4\<rparr>"

definition usd_ledger :: engine where
  "usd_ledger =
     empty_engine\<lparr>split_heap := [3 \<mapsto> usd_split], acc_heap := [7 \<mapsto> usd_account], next_ptr := 8\<rparr>"

definition open_trans :: "nat list \<Rightarrow> Transaction" where
  "open_trans ss =
     \<lparr> date_entered = \<lparr> tv_sec = 0, tv_nsec = 0 \<rparr>, date_posted = \<lparr> tv_sec = 0, tv_nsec = 0 \<rparr>,
       num = Some [], description = Some [], trans_docref = Some [],
       splits = ss, open_flags = BEGIN_EDIT \<rparr>"

definition enforced_ledger :: engine where
  "enforced_ledger =
     \<lparr> split_heap = [1 \<mapsto> xaccInitSplit\<lparr>acc_ptr := Some 7, parent := Some 0\<rparr>],
       trans_heap = [0 \<mapsto> open_trans [1]],
       acc_heap = [7 \<mapsto> usd_account],
       next_ptr = 8, force_double_entry = 1, journal = [] \<rparr>"


definition second_split_ledger :: "int \<Rightarrow> engine" where
  "second_split_ledger force =
     fresh_ledger\<lparr>split_heap := (split_heap fresh_ledger)(2 \<mapsto> xaccInitSplit\<lparr>damount := Finite 100\<rparr>),
                  next_ptr := 3, force_double_entry := force\<rparr>"

definition lone_split_ledger :: engine where
  "lone_split_ledger =
     \<lparr> split_heap = [1 \<mapsto> xaccInitSplit\<lparr>acc_ptr := Some 7, parent := Some 0\<rparr>],
       trans_heap = [0 \<mapsto> open_trans [1]],
       acc_heap = [7 \<mapsto> usd_account],
       next_ptr = 8, force_double_entry = 0, journal = [] \<rparr>"

definition pair_ledger :: engine where
  "pair_ledger =
     \<lparr> split_heap = [1 \<mapsto> xaccInitSplit\<lparr>acc_ptr := Some 7, parent := Some 0, damount := Finite 100\<rparr>,
                     2 \<mapsto> xaccInitSplit\<lparr>acc_ptr := Some 8, parent := Some 0, damount := Finite (- 100)\<rparr>],
       trans_heap = [0 \<mapsto> open_trans [1, 2]],
       acc_heap = [7 \<mapsto> usd_account, 8 \<mapsto> usd_account],
       next_ptr = 9, force_double_entry = 0, journal = [] \<rparr>"

definition triple_ledger :: engine where
  "triple_ledger =
     pair_ledger\<lparr>split_heap := (split_heap pair_ledger)(3 \<mapsto> xaccInitSplit\<lparr>acc_ptr := Some 8\<rparr>)\<rparr>"




section \<open>Properties\<close>

subsection \<open>Basic facts\<close>

lemma bind_result_simps [simp]:
  "bind_result (Inr x) f = f x" "bind_result (Inl e) f = Inl e"
  by (simp_all add: bind_result_def)

lemma bind_result_cong: "m = m' \<Longrightarrow> bind_result m f = bind_result m' f"
  by simp

lemma bind_result_eq_Inr: "bind_result m f = Inr y \<longleftrightarrow> (\<exists>x. m = Inr x \<and> f x = Inr y)"
  by (cases m) simp_all

lemma safe_strcmp_eq_0: "safe_strcmp a b = 0 \<longleftrightarrow> a = b"
  by (auto simp: safe_strcmp_def strcmp_def split: option.splits)

lemma safe_strcmp_order: "safe_strcmp a b = compare_key a b 0"
  by (auto simp: safe_strcmp_def strcmp_def compare_key_def split: option.splits)

lemma fresh_ledger_eq:
  "fresh_ledger =
     \<lparr> split_heap = [1 \<mapsto> xaccInitSplit\<lparr>parent := Some 0\<rparr>],
       trans_heap = [0 \<mapsto> \<lparr> date_entered = \<lparr> tv_sec = 0, tv_nsec = 0 \<rparr>,
              date_posted = \<lparr> tv_sec = 0, tv_nsec = 0 \<rparr>,
              num = Some [], description = Some [], trans_docref = Some [],
              splits = [1], open_flags = 0 \<rparr>],
       acc_heap = Map.empty, next_ptr = 2, force_double_entry = 0, journal = [] \<rparr>"
  by (simp add: fresh_ledger_def xaccMallocTransaction_def xaccMallocSplit_def empty_engine_def
      put_split_def put_trans_def Let_def)

subsection \<open>The canonical ordering\<close>

lemma xaccTransOrder_canonical: "xaccTransOrder ta tb = canonical_order ta tb"
  by (auto simp: xaccTransOrder_def canonical_order_def SAFE_STRCMP_def compare_key_def
      safe_strcmp_order Let_def split: option.splits)

lemma canonical_order_key:
  "canonical_order ta tb =
     (case ta of
        None \<Rightarrow> (case tb of None \<Rightarrow> 0 | Some b \<Rightarrow> 1)
      | Some a \<Rightarrow>
         (case tb of
            None \<Rightarrow> - 1
          | Some b \<Rightarrow> if canonical_key a < canonical_key b then - 1
                      else if canonical_key a = canonical_key b then 0 else 1))"
  by (auto simp: canonical_order_def compare_key_def canonical_key_def split: option.splits)

lemma canonical_order_flip: "canonical_order tb ta = - canonical_order ta tb"
  by (auto simp: canonical_order_key split: option.splits)

lemma canonical_order_trans:
  "canonical_order ta tb \<le> 0 \<Longrightarrow> canonical_order tb tc \<le> 0 \<Longrightarrow> canonical_order ta tc \<le> 0"
  by (auto simp: canonical_order_key split: option.splits if_splits)

lemma canonical_order_strict_trans:
  "canonical_order ta tb < 0 \<Longrightarrow> canonical_order tb tc < 0 \<Longrightarrow> canonical_order ta tc < 0"
  by (auto simp: canonical_order_key split: option.splits if_splits)

lemma canonical_order_chrono:
  "posted_time a \<noteq> posted_time b \<Longrightarrow>
     canonical_order (Some a) (Some b) = (if posted_time a < posted_time b then - 1 else 1)"
  by (auto simp: canonical_order_key canonical_key_def posted_time_def)

text \<open>
  C5.  xaccTransOrder applies the keys presence (a present transaction first), posted
  seconds, posted sub-seconds, num, description, in this order, each ascending, until one
  differentiates, and returns 0 otherwise: it is the specification's canonical order.
  Swapping the arguments negates the result, the relation is transitive (in its weak and
  in its strict form), two transactions with different posted times compare as their
  posted times do, and three transactions in chronological order are in sort order.
\<close>

theorem xaccTransOrder_total_order:
  "xaccTransOrder ta tb = canonical_order ta tb
   \<and> xaccTransOrder tb ta = - xaccTransOrder ta tb
   \<and> (xaccTransOrder ta tb \<le> 0 \<longrightarrow> xaccTransOrder tb tc \<le> 0 \<longrightarrow> xaccTransOrder ta tc \<le> 0)
   \<and> (xaccTransOrder ta tb < 0 \<longrightarrow> xaccTransOrder tb tc < 0 \<longrightarrow> xaccTransOrder ta tc < 0)
   \<and> (posted_time a \<noteq> posted_time b \<longrightarrow>
        (xaccTransOrder (Some a) (Some b) < 0) = (posted_time a < posted_time b)
        \<and> (xaccTransOrder (Some a) (Some b) > 0) = (posted_time b < posted_time a))
   \<and> (posted_time a < posted_time b \<longrightarrow> posted_time b < posted_time c \<longrightarrow>
        xaccTransOrder (Some a) (Some b) = - 1 \<and> xaccTransOrder (Some b) (Some c) = - 1
        \<and> xaccTransOrder (Some a) (Some c) = - 1)"
proof -
  have chrono3: "posted_time a < posted_time c" if "posted_time a < posted_time b"
    "posted_time b < posted_time c"
    using that by (rule less_trans)
  show ?thesis
    unfolding xaccTransOrder_canonical
    using canonical_order_flip[of ta tb] canonical_order_trans[of ta tb tc]
      canonical_order_strict_trans[of ta tb tc]
      canonical_order_chrono[of a b] canonical_order_chrono[of b c]
      canonical_order_chrono[of a c] chrono3
    by (auto simp: less_le)
qed

theorem xaccTransOrder_total_order_witness:
  "xaccTransOrder (Some (sample_trans 10 0)) (Some (sample_trans 10 5)) \<le> 0
   \<and> xaccTransOrder (Some (sample_trans 10 5)) (Some (sample_trans 20 0)) \<le> 0
   \<and> xaccTransOrder (Some (sample_trans 10 0)) (Some (sample_trans 20 0)) \<le> 0
   \<and> xaccTransOrder (Some (sample_trans 10 0)) (Some (sample_trans 10 5)) < 0
   \<and> xaccTransOrder (Some (sample_trans 10 5)) (Some (sample_trans 20 0)) < 0
   \<and> xaccTransOrder (Some (sample_trans 10 0)) (Some (sample_trans 20 0)) < 0
   \<and> posted_time (sample_trans 10 0) \<noteq> posted_time (sample_trans 10 5)
   \<and> posted_time (sample_trans 10 0) < posted_time (sample_trans 10 5)
   \<and> posted_time (sample_trans 10 5) < posted_time (sample_trans 20 0)
   \<and> xaccTransOrder (Some (sample_trans 10 0)) (Some (sample_trans 10 5)) = - 1
   \<and> xaccTransOrder (Some (sample_trans 10 5)) (Some (sample_trans 20 0)) = - 1
   \<and> xaccTransOrder (Some (sample_trans 10 0)) (Some (sample_trans 20 0)) = - 1
   \<and> xaccTransOrder (Some (sample_trans 10 5)) (Some (sample_trans 10 0)) = 1"
  using xaccTransOrder_total_order[of "Some (sample_trans 10 0)" "Some (sample_trans 10 5)"
      "Some (sample_trans 20 0)" "sample_trans 10 0" "sample_trans 10 5" "sample_trans 20 0"]
  by (simp add: posted_time_def sample_trans_def)

subsection \<open>Split ordering\<close>

text \<open>
  C8, as stated, fails: comparing an absent split with a present one returns +1, so the
  absent split sorts after the present one.
\<close>

theorem xaccSplitOrder_absent_counterexample:
  "xaccSplitOrder empty_engine None (Some xaccInitSplit) = Inr 1
   \<and> xaccSplitOrder empty_engine (Some xaccInitSplit) None = Inr (- 1)"
  by (simp add: xaccSplitOrder_def)

text \<open>
  C8, amended.  A present split sorts before an absent one (the presence rule of
  xaccTransOrder), two absent splits are equal, and two present splits are ordered by the
  canonical order of their parent transactions, then by memo, then by action, strings
  comparing lexicographically with an absent string first.
\<close>

theorem xaccSplitOrder_delegates:
  "xaccSplitOrder h (Some a) None = Inr (- 1)
   \<and> xaccSplitOrder h None (Some b) = Inr 1
   \<and> xaccSplitOrder h None None = Inr 0
   \<and> (deref_parent h a = Inr ta \<longrightarrow> deref_parent h b = Inr tb \<longrightarrow>
        xaccSplitOrder h (Some a) (Some b) =
          Inr (if canonical_order ta tb \<noteq> 0 then canonical_order ta tb
               else compare_key (memo a) (memo b) (compare_key (action a) (action b) 0)))"
  by (auto simp: xaccSplitOrder_def xaccTransOrder_canonical SAFE_STRCMP_def safe_strcmp_order
      compare_key_def Let_def)

theorem xaccSplitOrder_delegates_witness:
  "deref_parent fresh_ledger (xaccInitSplit\<lparr>parent := Some 0, memo := Some ''a''\<rparr>)
      = Inr (trans_heap fresh_ledger 0)
   \<and> deref_parent fresh_ledger (xaccInitSplit\<lparr>parent := Some 0, memo := Some ''b''\<rparr>)
      = Inr (trans_heap fresh_ledger 0)
   \<and> xaccSplitOrder fresh_ledger (Some (xaccInitSplit\<lparr>parent := Some 0, memo := Some ''a''\<rparr>))
        (Some (xaccInitSplit\<lparr>parent := Some 0, memo := Some ''b''\<rparr>)) = Inr (- 1)"
  using xaccSplitOrder_delegates[of fresh_ledger "xaccInitSplit\<lparr>parent := Some 0, memo := Some ''a''\<rparr>"
      "xaccInitSplit\<lparr>parent := Some 0, memo := Some ''b''\<rparr>" "trans_heap fresh_ledger 0"
      "trans_heap fresh_ledger 0"]
  by (simp add: deref_parent_def fresh_ledger_eq canonical_order_key compare_key_def xaccInitSplit_def)

subsection \<open>Accessors\<close>

text \<open>
  C9.  xaccTransCountSplits on an absent transaction dereferences the NULL pointer, and
  xaccTransGetSplit reads behind the terminator for an index beyond the split count
  (index 1 of a one-split transaction is the terminator; index 2 is behind it, which in the
  three-slot array of a fresh transaction is the slot that was never written, and the
  result is as undefined as a read out of bounds).
\<close>

theorem xaccTransCountSplits_absent:
  "xaccTransCountSplits fresh_ledger None = Inl BadPointer
   \<and> xaccTransGetSplit fresh_ledger (Some 0) 1 = Inr None
   \<and> xaccTransGetSplit fresh_ledger (Some 0) 2 = Inl OutOfBounds"
  by (simp add: xaccTransCountSplits_def xaccTransGetSplit_def get_trans_def fresh_ledger_eq
      array_read_def)

subsection \<open>Base values\<close>

text \<open>
  C10.  For a split with a non-zero share price whose account's currency or security is
  the base currency given, xaccSplitSetBaseValue of a finite value followed by
  xaccSplitGetBaseValue returns the value that was set, in exact arithmetic, and the share
  price is unchanged (the getter does not write at all).
\<close>

theorem base_value_round_trip:
  assumes "split_heap h s = Some S" and "share_price S \<noteq> 0"
    and "acc_ptr S = Some a" and "acc_heap h a = Some A"
    and "currency A = base \<or> security A = base"
  shows "\<exists>h' S'. xaccSplitSetBaseValue h (Some s) (Finite v) base = Inr h'
     \<and> xaccSplitGetBaseValue h' (Some s) base = Inr (Finite v)
     \<and> split_heap h' s = Some S' \<and> share_price S' = share_price S"
  using assms
  by (auto simp: xaccSplitSetBaseValue_def xaccSplitGetBaseValue_def get_split_def get_acc_def
      double_divide_def double_times_def put_split_def safe_strcmp_eq_0)

theorem base_value_round_trip_witness:
  "split_heap usd_ledger 3 = Some usd_split \<and> share_price usd_split \<noteq> 0
   \<and> acc_ptr usd_split = Some 7 \<and> acc_heap usd_ledger 7 = Some usd_account
   \<and> currency usd_account = Some ''USD''
   \<and> (case xaccSplitSetBaseValue usd_ledger (Some 3) (Finite 10) (Some ''USD'') of
        Inl e \<Rightarrow> False
      | Inr h' \<Rightarrow> xaccSplitGetBaseValue h' (Some 3) (Some ''USD'') = Inr (Finite 10)
          \<and> map_option share_price (split_heap h' 3) = Some 4
          \<and> map_option damount (split_heap h' 3) = Some (Finite (5 / 2)))"
  using base_value_round_trip[of usd_ledger 3 usd_split 7 usd_account "Some ''USD''" 10]
  by (simp add: usd_ledger_def usd_split_def usd_account_def empty_engine_def xaccInitSplit_def
      xaccSplitSetBaseValue_def xaccSplitGetBaseValue_def get_split_def get_acc_def
      double_divide_def double_times_def put_split_def safe_strcmp_eq_0)

subsection \<open>Mutation outside an edit session\<close>

lemma MARK_SPLIT_frame:
  "MARK_SPLIT h s = Inr h' \<Longrightarrow> split_heap h' = split_heap h \<and> trans_heap h' = trans_heap h
     \<and> journal h' = journal h \<and> next_ptr h' = next_ptr h
     \<and> force_double_entry h' = force_double_entry h
     \<and> (\<forall>a. (acc_heap h' a = None) = (acc_heap h a = None))"
  by (auto simp: MARK_SPLIT_def get_split_def get_acc_def bind_result_eq_Inr
      split: option.splits if_splits)

lemma MARK_SPLIT_total: "splits_valid h [s] \<Longrightarrow> \<exists>h'. MARK_SPLIT h s = Inr h'"
  by (auto simp: MARK_SPLIT_def get_split_def get_acc_def splits_valid_def split: option.splits)

lemma splits_valid_cong:
  "split_heap h' = split_heap h \<Longrightarrow> \<forall>a. (acc_heap h' a = None) = (acc_heap h a = None) \<Longrightarrow>
    splits_valid h ss \<Longrightarrow> splits_valid h' ss"
  unfolding splits_valid_def
  by (induction ss) (simp_all split: option.splits)

lemma MarkChanged_loop_total:
  "splits_valid h ss \<Longrightarrow> \<exists>h'. MarkChanged_loop h ss = Inr h' \<and> split_heap h' = split_heap h
      \<and> trans_heap h' = trans_heap h \<and> journal h' = journal h"
proof (induction ss arbitrary: h)
  case Nil
  then show ?case by simp
next
  case (Cons s ss)
  from Cons.prems have v: "splits_valid h [s]" "splits_valid h ss"
    by (simp_all add: splits_valid_def)
  from MARK_SPLIT_total[OF v(1)] obtain h1 where h1: "MARK_SPLIT h s = Inr h1" by blast
  note fr = MARK_SPLIT_frame[OF h1]
  have "splits_valid h1 ss" using splits_valid_cong[OF _ _ v(2), of h1] fr by simp
  from Cons.IH[OF this] show ?case using h1 fr by auto
qed

lemma splits_valid_allocated: "splits_valid h ss \<Longrightarrow> s \<in> set ss \<Longrightarrow> split_heap h s \<noteq> None"
  by (auto simp: splits_valid_def list_all_iff split: option.splits)

lemma xaccTransSetDateSecs_loop_total:
  "\<forall>s\<in>set ss. split_heap h s \<noteq> None \<Longrightarrow>
   \<exists>h'. xaccTransSetDateSecs_loop h ss = Inr h' \<and> trans_heap h' = trans_heap h
      \<and> set (journal h) \<subseteq> set (journal h')"
proof (induction ss arbitrary: h)
  case Nil
  then show ?case by simp
next
  case (Cons s ss)
  from Cons.prems obtain S where S: "split_heap h s = Some S" by auto
  have "\<exists>h2. bind_result (xaccAccountRemoveSplit h (acc_ptr S) s)
        (\<lambda>h1. xaccAccountInsertSplit h1 (acc_ptr S) s) = Inr h2
      \<and> trans_heap h2 = trans_heap h \<and> set (journal h) \<subseteq> set (journal h2)
      \<and> (\<forall>p. (split_heap h2 p = None) = (split_heap h p = None))"
    using S
    by (cases "acc_ptr S")
      (auto simp: xaccAccountRemoveSplit_def xaccAccountInsertSplit_def emit_def get_split_def
        put_split_def Let_def)
  then obtain h2 where h2: "bind_result (xaccAccountRemoveSplit h (acc_ptr S) s)
        (\<lambda>h1. xaccAccountInsertSplit h1 (acc_ptr S) s) = Inr h2"
    and fr: "trans_heap h2 = trans_heap h" "set (journal h) \<subseteq> set (journal h2)"
      "\<forall>p. (split_heap h2 p = None) = (split_heap h p = None)"
    by blast
  have "\<forall>s\<in>set ss. split_heap h2 s \<noteq> None" using Cons.prems fr(3) by simp
  from Cons.IH[OF this] obtain h' where
    "xaccTransSetDateSecs_loop h2 ss = Inr h'" "trans_heap h' = trans_heap h2"
    "set (journal h2) \<subseteq> set (journal h')" by blast
  then show ?case using S h2 fr by (auto simp: get_split_def bind_result_eq_Inr)
qed

text \<open>
  C7, as stated, fails: a freshly created transaction is Closed, and xaccTransSetNum on it
  returns normally with the num field changed.
\<close>

theorem closed_transaction_counterexample:
  "map_option open_flags (trans_heap fresh_ledger 0) = Some 0
   \<and> map_option num (trans_heap fresh_ledger 0) = Some (Some [])
   \<and> (case xaccTransSetNum fresh_ledger (Some 0) (Some ''101'') of
        Inl e \<Rightarrow> False
      | Inr h' \<Rightarrow> map_option num (trans_heap h' 0) = Some (Some ''101''))"
  by (simp add: fresh_ledger_eq xaccTransSetNum_def CHECK_OPEN_def get_trans_def emit_def
      put_trans_def MarkChanged_def MARK_SPLIT_def get_split_def xaccInitSplit_def)

text \<open>
  C7, amended.  On a Closed transaction CHECK_OPEN only prints its diagnostic and returns:
  there is no error, and xaccTransSetNum, xaccTransSetDescription and
  xaccTransSetDateSecs then perform the mutation as they would on an open transaction
  (the splits of the transaction being allocated).
\<close>

theorem closed_transaction_mutation_proceeds:
  assumes T: "trans_heap h t = Some T" and closed: "open_flags T = 0"
    and valid: "splits_valid h (splits T)"
  shows "CHECK_OPEN h t = Inr (emit h (NotOpenForEditing t))
    \<and> (\<exists>h'. xaccTransSetNum h (Some t) (Some x) = Inr h'
          \<and> map_option num (trans_heap h' t) = Some (Some x)
          \<and> NotOpenForEditing t \<in> set (journal h'))
    \<and> (\<exists>h'. xaccTransSetDescription h (Some t) (Some x) = Inr h'
          \<and> map_option description (trans_heap h' t) = Some (Some x)
          \<and> NotOpenForEditing t \<in> set (journal h'))
    \<and> (\<exists>h'. xaccTransSetDateSecs h (Some t) secs = Inr h'
          \<and> map_option (\<lambda>T'. tv_sec (date_posted T')) (trans_heap h' t) = Some secs
          \<and> NotOpenForEditing t \<in> set (journal h'))"
proof -
  let ?h1 = "emit h (NotOpenForEditing t)"
  have chk: "CHECK_OPEN h t = Inr ?h1"
    using T closed by (simp add: CHECK_OPEN_def get_trans_def)
  have T1: "trans_heap ?h1 t = Some T" using T by (simp add: emit_def)
  have setter: "\<exists>h'. MarkChanged (put_trans ?h1 t T') t = Inr h'
        \<and> trans_heap h' t = Some T' \<and> NotOpenForEditing t \<in> set (journal h')"
    if "splits T' = splits T" for T'
  proof -
    have "splits_valid (put_trans ?h1 t T') (splits T')"
      using splits_valid_cong[OF _ _ valid, of "put_trans ?h1 t T'"] that
      by (simp add: put_trans_def emit_def)
    from MarkChanged_loop_total[OF this] show ?thesis
      by (auto simp: MarkChanged_def get_trans_def put_trans_def emit_def)
  qed
  have n: "\<exists>h'. xaccTransSetNum h (Some t) (Some x) = Inr h'
          \<and> map_option num (trans_heap h' t) = Some (Some x)
          \<and> NotOpenForEditing t \<in> set (journal h')"
    using setter[of "T\<lparr>num := Some x\<rparr>"] chk T1
    by (auto simp: xaccTransSetNum_def get_trans_def)
  have d: "\<exists>h'. xaccTransSetDescription h (Some t) (Some x) = Inr h'
          \<and> map_option description (trans_heap h' t) = Some (Some x)
          \<and> NotOpenForEditing t \<in> set (journal h')"
    using setter[of "T\<lparr>description := Some x\<rparr>"] chk T1
    by (auto simp: xaccTransSetDescription_def get_trans_def)
  let ?T' = "T\<lparr>date_entered := (date_entered T)\<lparr>tv_sec := secs\<rparr>,
                   date_posted := (date_posted T)\<lparr>tv_sec := secs\<rparr>\<rparr>"
  have "\<forall>s\<in>set (splits T). split_heap (put_trans ?h1 t ?T') s \<noteq> None"
    using splits_valid_allocated[OF valid] by (simp add: put_trans_def emit_def)
  from xaccTransSetDateSecs_loop_total[OF this]
  have s: "\<exists>h'. xaccTransSetDateSecs h (Some t) secs = Inr h'
          \<and> map_option (\<lambda>T'. tv_sec (date_posted T')) (trans_heap h' t) = Some secs
          \<and> NotOpenForEditing t \<in> set (journal h')"
    using chk T1
    by (auto simp: xaccTransSetDateSecs_def get_trans_def put_trans_def emit_def Let_def)
  from chk n d s show ?thesis by blast
qed

theorem closed_transaction_mutation_proceeds_witness:
  "trans_heap fresh_ledger 0 = Some (the (trans_heap fresh_ledger 0))
   \<and> open_flags (the (trans_heap fresh_ledger 0)) = 0
   \<and> splits_valid fresh_ledger (splits (the (trans_heap fresh_ledger 0)))
   \<and> CHECK_OPEN fresh_ledger 0 = Inr (emit fresh_ledger (NotOpenForEditing 0))
   \<and> (\<exists>h'. xaccTransSetNum fresh_ledger (Some 0) (Some ''101'') = Inr h'
          \<and> map_option num (trans_heap h' 0) = Some (Some ''101'')
          \<and> NotOpenForEditing 0 \<in> set (journal h'))"
proof -
  have a: "trans_heap fresh_ledger 0 = Some (the (trans_heap fresh_ledger 0))"
    by (simp add: fresh_ledger_eq)
  have b: "open_flags (the (trans_heap fresh_ledger 0)) = 0"
    by (simp add: fresh_ledger_eq)
  have c: "splits_valid fresh_ledger (splits (the (trans_heap fresh_ledger 0)))"
    by (simp add: fresh_ledger_eq splits_valid_def xaccInitSplit_def)
  from closed_transaction_mutation_proceeds[OF a b c, of "''101''"] a b c
  show ?thesis by blast
qed

subsection \<open>Evaluating the model on concrete states\<close>

lemmas eval_defs = xaccSplitSetShareAmount_def MARK_SPLIT_def get_split_def get_acc_def get_trans_def
  put_split_def put_trans_def emit_def xaccSplitRebalance_body_def xaccTransAppendSplit_body_def
  rebalance_base_currency_def common_currency_step_def empty_to_null_def safe_strcmp_def strcmp_def
  force_total_def ComputeValue_def xaccSplitSetBaseValue_def double_times_def double_divide_def
  plus_double_def zero_double_def uminus_double_def
  xaccAccountRecomputeBalance_def xaccAccountInsertSplit_def xaccAccountRemoveSplit_def
  xaccMallocSplit_def xaccInitSplit_def array_read_def DEQ_def CHECK_OPEN_def
  xaccTransRemoveSplit_def xaccTransRebalance_with_def xaccTransRebalance_def
  BEGIN_EDIT_def DEFER_REBALANCE_def open_trans_def usd_account_def Let_def
  xaccTransCommitEdit_def xaccCheckDateOrder_def xaccTransWriteLog_def
  xaccSplitDestroy_def xaccSplitDestroy_unlink_def xaccSplitDestroy_teardown_def detach_split_def xaccFreeTransaction_def xaccFreeSplit_def
  create_balancing_split_def

lemma numeral_fuel:
  "xaccSplitRebalance (numeral k) h s =
     xaccSplitRebalance_body (xaccTransAppendSplit (pred_numeral k)) h s"
  "xaccTransAppendSplit (numeral k) h tr s =
     xaccTransAppendSplit_body (xaccSplitRebalance (pred_numeral k)) h tr s"
  by (simp_all add: numeral_eq_Suc)

subsection \<open>The automatic balancing split\<close>

lemma ComputeValue_loop_no_account:
  "force_double_entry h \<noteq> 0 \<Longrightarrow> split_heap h s = Some S \<Longrightarrow> acc_ptr S = None \<Longrightarrow>
   s \<in> set ss \<Longrightarrow> Some s \<noteq> skip \<Longrightarrow>
   \<exists>e. ComputeValue_loop h ss skip base v = Inl e"
proof (induction ss arbitrary: v)
  case Nil
  then show ?case by simp
next
  case (Cons x xs)
  show ?case
  proof (cases "x = s")
    case True
    with Cons.prems show ?thesis by (simp add: get_split_def)
  next
    case False
    with Cons.prems have "s \<in> set xs" by simp
    from Cons.IH[OF Cons.prems(1-3) this Cons.prems(5)]
    have ih: "\<exists>e. ComputeValue_loop h xs skip base w = Inl e" for w by blast
    show ?thesis
      using ih
      by (auto simp: get_split_def get_acc_def split: option.splits)
  qed
qed

lemma create_balancing_split_fails:
  assumes force: "force_double_entry h \<noteq> 0"
    and T: "trans_heap h t = Some T" and nd: "DEFER_REBALANCE AND open_flags T = 0"
    and ne: "splits T \<noteq> []"
  shows "\<exists>e. create_balancing_split (xaccTransAppendSplit m) h t split S = Inl e"
proof (cases "memo S = None \<or> action S = None")
  case True
  then show ?thesis
    by (auto simp: create_balancing_split_def Let_def xaccMallocSplit_def)
next
  case False
  define s where "s = next_ptr h"
  define X where "X = xaccInitSplit\<lparr>damount := - double_times (damount S) (share_price S),
      memo := memo S, action := action S\<rparr>"
  define h2 where "h2 = put_split (snd (xaccMallocSplit h)) s X"
  have X: "acc_ptr X = None" "parent X = None" by (simp_all add: X_def xaccInitSplit_def)
  have h2: "split_heap h2 s = Some X" "trans_heap h2 = trans_heap h"
    "force_double_entry h2 = force_double_entry h"
    by (simp_all add: h2_def put_split_def xaccMallocSplit_def)
  have mark: "MARK_SPLIT h2 s = Inr h2"
    using h2 X by (simp add: MARK_SPLIT_def get_split_def)
  have app: "\<exists>e. xaccTransAppendSplit m h2 (Some t) (Some s) = Inl e"
  proof (cases m)
    case 0
    then show ?thesis by simp
  next
    case (Suc k)
    obtain h3 where chk: "CHECK_OPEN h2 t = Inr h3" and h3: "split_heap h3 = split_heap h2"
      "trans_heap h3 = trans_heap h2" "force_double_entry h3 = force_double_entry h2"
      using T h2 by (auto simp: CHECK_OPEN_def get_trans_def emit_def)
    define h5 where "h5 = put_trans (put_split h3 s (X\<lparr>parent := Some t\<rparr>)) t (T\<lparr>splits := splits T @ [s]\<rparr>)"
    have h5: "split_heap h5 s = Some (X\<lparr>parent := Some t\<rparr>)"
      "trans_heap h5 t = Some (T\<lparr>splits := splits T @ [s]\<rparr>)"
      "force_double_entry h5 \<noteq> 0"
      using force h2 h3 by (simp_all add: h5_def put_trans_def put_split_def)
    have reb: "\<exists>e. xaccSplitRebalance k h5 (Some s) = Inl e"
    proof (cases k)
      case 0
      then show ?thesis by simp
    next
      case (Suc j)
      let ?T5 = "T\<lparr>splits := splits T @ [s]\<rparr>"
      let ?X5 = "X\<lparr>parent := Some t\<rparr>"
      have base: "rebalance_base_currency h5 ?X5 ?T5 = Inr (Some None)"
        using X by (simp add: rebalance_base_currency_def)
      have cv: "\<exists>e. ComputeValue h5 (splits ?T5) (Some p) b = Inl e" if "p \<noteq> s" for p b
        unfolding ComputeValue_def
        by (rule ComputeValue_loop_no_account[OF h5(3) h5(1)]) (use X that in auto)
      have ft_other: "\<exists>e. force_total h5 ?T5 p b = Inl e" if "p \<noteq> s" for p b
        using cv[OF that, of b] by (auto simp: force_total_def)
      have ft_self: "\<exists>e. force_total h5 ?T5 s b = Inl e" for b
      proof (cases "ComputeValue h5 (splits ?T5) (Some s) b")
        case (Inl e)
        then show ?thesis by (simp add: force_total_def)
      next
        case (Inr v)
        have "xaccSplitSetBaseValue h5 (Some s) (- v) b = Inl AssertFailed"
          using h5 X by (simp add: xaccSplitSetBaseValue_def get_split_def)
        with Inr show ?thesis by (simp add: force_total_def)
      qed
      have ft: "\<exists>e. force_total h5 ?T5 p b = Inl e" for p b
        using ft_other ft_self by (cases "p = s") auto
      show ?thesis
        using Suc h5 nd base ft ne
        by (auto simp: xaccSplitRebalance_body_def get_split_def get_trans_def
            array_read_def split: option.splits)
    qed
    have T4: "trans_heap (put_split h3 s (X\<lparr>parent := Some t\<rparr>)) t = Some T"
      using T h2 h3 by (simp add: put_split_def)
    show ?thesis
      using Suc chk h2 h3 X reb T4
      by (auto simp: xaccTransAppendSplit_body_def get_split_def get_trans_def h5_def Let_def)
  qed
  show ?thesis
    using False mark app
    by (auto simp: create_balancing_split_def Let_def xaccMallocSplit_def h2_def s_def X_def
        split: prod.splits)
qed

text \<open>
  C2.  Enforcement is on, transaction 0 is open for editing and holds the single split 1,
  which lies in a USD account.  Setting the quantity of split 1 to 50 (price 1.0) reaches
  the creation of the balancing split, whose xaccTransAppendSplit rebalances before
  xaccAccountInsertSplit has given the new split an account: ComputeValue meets a split
  without account under enforcement and its assertion fails.
\<close>

theorem balancing_split_assertion_fails:
  "xaccSplitSetShareAmount 4 enforced_ledger 1 (Finite 50) = Inl AssertFailed"
  by (simp add: enforced_ledger_def eval_defs numeral_fuel cong: bind_result_cong)

subsection \<open>Split removal\<close>

text \<open>
  C6.  Destroying the only split of transaction 0 journals the Destroy record and detaches
  the split from its account, but the transaction and the split stay allocated: the call
  of xaccFreeTransaction sits inside the test for a second split.  With two splits the
  transaction and both splits are freed.
\<close>

theorem xaccSplitDestroy_lone_split_not_freed:
  "(case xaccSplitDestroy 4 lone_split_ledger (Some 1) of
      Inl e \<Rightarrow> False
    | Inr h' \<Rightarrow> trans_heap h' 0 \<noteq> None \<and> split_heap h' 1 \<noteq> None
        \<and> map_option acc_ptr (split_heap h' 1) = Some None
        \<and> WriteLog 0 CHR ''D'' \<in> set (journal h'))
   \<and> (case xaccSplitDestroy 4 pair_ledger (Some 1) of
      Inl e \<Rightarrow> False
    | Inr h' \<Rightarrow> trans_heap h' 0 = None \<and> split_heap h' 1 = None \<and> split_heap h' 2 = None
        \<and> WriteLog 0 CHR ''D'' \<in> set (journal h'))"
  by (simp add: lone_split_ledger_def pair_ledger_def eval_defs numeral_fuel
      cong: bind_result_cong)

subsection \<open>Appending a split to a fresh transaction\<close>

lemma common_currency_loop_unforced:
  "force_double_entry h = 0 \<Longrightarrow> common_currency_loop h ss ra rb = Inr (ra, rb)"
  by (induction ss) simp_all

text \<open>
  C3, as stated, fails when enforcement is on: the fresh source split (and here the
  appended split too) has no account, and the rebalance that xaccTransAppendSplit
  triggers stops at the assertion that every split has one.
\<close>

theorem append_forces_source_counterexample:
  "xaccTransAppendSplit 4 (second_split_ledger 1) (Some 0) (Some 2) = Inl AssertFailed"
  by (simp add: second_split_ledger_def fresh_ledger_eq eval_defs numeral_fuel
      cong: bind_result_cong)

text \<open>
  C3, amended.  With enforcement off (the initial value of force_double_entry), appending
  to a freshly created transaction a split that is in no transaction yet, has quantity 100
  and price 1 and lies in no account or in an account that is not in deferred-rebalance
  state, returns normally and leaves the source split with quantity -100: the rebalance
  triggered by the appended (destination) split forces the negated total of the other
  splits onto the source split.
\<close>

theorem append_forces_source:
  assumes force: "force_double_entry h = 0"
    and T: "trans_heap h t = Some T" "splits T = [s0]" "open_flags T = 0"
    and S0: "split_heap h s0 = Some (xaccInitSplit\<lparr>parent := Some t\<rparr>)"
    and S: "split_heap h s = Some S" "parent S = None" "damount S = Finite 100" "share_price S = 1"
    and acc: "acc_ptr S = None \<or> (\<exists>a A. acc_ptr S = Some a \<and> acc_heap h a = Some A \<and> \<not> acc_defer A)"
    and fuel: "2 \<le> n"
  shows "\<exists>h'. xaccTransAppendSplit n h (Some t) (Some s) = Inr h'
     \<and> map_option damount (split_heap h' s0) = Some (Finite (- 100))
     \<and> map_option damount (split_heap h' s) = Some (Finite 100)
     \<and> map_option splits (trans_heap h' t) = Some [s0, s]"
proof -
  from fuel obtain k where n: "n = Suc (Suc k)"
    by (metis add_2_eq_Suc le_Suc_ex)
  have ne: "s \<noteq> s0" using S0 S by (auto simp: xaccInitSplit_def)
  let ?S0 = "xaccInitSplit\<lparr>parent := Some t\<rparr>"
  let ?h1 = "emit h (NotOpenForEditing t)"
  let ?S' = "S\<lparr>parent := Some t\<rparr>"
  let ?T' = "T\<lparr>splits := [s0, s]\<rparr>"
  define h5 where "h5 = put_trans (put_split ?h1 s ?S') t ?T'"
  have h5: "split_heap h5 s = Some ?S'" "split_heap h5 s0 = Some ?S0"
    "trans_heap h5 t = Some ?T'" "force_double_entry h5 = 0" "acc_heap h5 = acc_heap h"
    using force T S0 S ne by (simp_all add: h5_def put_trans_def put_split_def emit_def)
  have app: "xaccTransAppendSplit n h (Some t) (Some s) = xaccSplitRebalance (Suc k) h5 (Some s)"
    using T S
    by (simp add: n xaccTransAppendSplit_body_def CHECK_OPEN_def get_trans_def get_split_def
        h5_def put_split_def put_trans_def emit_def)
  obtain b where base: "rebalance_base_currency h5 ?S' ?T' = Inr (Some b)"
    and bmatch: "acc_ptr S = None \<or> (\<exists>a A. acc_ptr S = Some a \<and> acc_heap h a = Some A \<and> currency A = b)"
    using acc h5
    by (auto simp: rebalance_base_currency_def get_acc_def common_currency_loop_unforced)
  have cv: "ComputeValue h5 [s0, s] (Some s0) b = Inr (Finite 100)"
    using h5 S ne bmatch
    by (auto simp: ComputeValue_def get_split_def get_acc_def safe_strcmp_eq_0
        double_times_def plus_double_def zero_double_def)
  let ?h6 = "put_split h5 s0 (?S0\<lparr>damount := Finite (- 100)\<rparr>)"
  have sbv: "xaccSplitSetBaseValue h5 (Some s0) (- Finite 100) b = Inr ?h6"
    using h5 by (simp add: xaccSplitSetBaseValue_def get_split_def double_divide_def
        uminus_double_def xaccInitSplit_def)
  have mark: "MARK_SPLIT ?h6 s0 = Inr ?h6"
    by (simp add: MARK_SPLIT_def get_split_def put_split_def xaccInitSplit_def)
  have ft: "force_total h5 ?T' s0 b = Inr (xaccAccountRecomputeBalance ?h6 None)"
    using cv sbv mark
    by (simp add: force_total_def get_split_def put_split_def xaccInitSplit_def)
  have reb: "xaccSplitRebalance (Suc k) h5 (Some s) = Inr (xaccAccountRecomputeBalance ?h6 None)"
    using h5 T base ft ne
    by (simp add: xaccSplitRebalance_body_def get_split_def get_trans_def DEFER_REBALANCE_def)
  show ?thesis
    using app reb h5 ne S
    by (simp add: xaccAccountRecomputeBalance_def emit_def put_split_def)
qed

theorem append_forces_source_witness:
  "force_double_entry (second_split_ledger 0) = 0
   \<and> map_option splits (trans_heap (second_split_ledger 0) 0) = Some [1]
   \<and> map_option open_flags (trans_heap (second_split_ledger 0) 0) = Some 0
   \<and> split_heap (second_split_ledger 0) 1 = Some (xaccInitSplit\<lparr>parent := Some 0\<rparr>)
   \<and> split_heap (second_split_ledger 0) 2 = Some (xaccInitSplit\<lparr>damount := Finite 100\<rparr>)
   \<and> (2::nat) \<le> 4
   \<and> (\<exists>h'. xaccTransAppendSplit 4 (second_split_ledger 0) (Some 0) (Some 2) = Inr h'
         \<and> map_option damount (split_heap h' 1) = Some (Finite (- 100))
         \<and> map_option damount (split_heap h' 2) = Some (Finite 100)
         \<and> map_option splits (trans_heap h' 0) = Some [1, 2])"
proof -
  let ?h = "second_split_ledger 0"
  let ?T = "the (trans_heap ?h 0)"
  let ?S = "xaccInitSplit\<lparr>damount := Finite 100\<rparr>"
  have f: "force_double_entry ?h = 0" by (simp add: second_split_ledger_def)
  have T: "trans_heap ?h 0 = Some ?T" "splits ?T = [1]" "open_flags ?T = 0"
    by (simp_all add: second_split_ledger_def fresh_ledger_eq)
  have S0: "split_heap ?h 1 = Some (xaccInitSplit\<lparr>parent := Some 0\<rparr>)"
    by (simp add: second_split_ledger_def fresh_ledger_eq)
  have S: "split_heap ?h 2 = Some ?S" "parent ?S = None" "damount ?S = Finite 100"
    "share_price ?S = 1"
    by (simp_all add: second_split_ledger_def fresh_ledger_eq xaccInitSplit_def)
  have a: "acc_ptr ?S = None \<or> (\<exists>a A. acc_ptr ?S = Some a \<and> acc_heap ?h a = Some A \<and> \<not> acc_defer A)"
    by (simp add: xaccInitSplit_def)
  have n: "(2::nat) \<le> 4" by simp
  have m: "map_option splits (trans_heap ?h 0) = Some [1]"
    "map_option open_flags (trans_heap ?h 0) = Some 0"
    by (simp_all add: second_split_ledger_def fresh_ledger_eq)
  note main = append_forces_source[OF f T S0 S a n]
  show ?thesis using main f m S0 S(1) n by blast
qed

subsection \<open>What the rebalancer leaves unchanged\<close>

lemma same_structure_refl [simp]: "same_structure h h"
  by (simp add: same_structure_def)

lemma same_structure_trans:
  "same_structure h h1 \<Longrightarrow> same_structure h1 h2 \<Longrightarrow> same_structure h h2"
  by (simp add: same_structure_def)

lemma parent_inv_same_structure:
  assumes "parent_inv h" and "same_structure h h'"
  shows "parent_inv h'"
  unfolding parent_inv_def
proof (intro allI impI ballI)
  fix t T s
  assume "trans_heap h' t = Some T" "s \<in> set (splits T)"
  with assms obtain S where S: "split_heap h s = Some S" "parent S = Some t"
    unfolding parent_inv_def same_structure_def by metis
  from assms(2) have "map_option parent (split_heap h' s) = map_option parent (split_heap h s)"
    by (simp add: same_structure_def)
  with S show "\<exists>S. split_heap h' s = Some S \<and> parent S = Some t"
    by (cases "split_heap h' s") auto
qed

lemma same_structure_emit [simp]: "same_structure h (emit h e)"
  by (simp add: same_structure_def emit_def)

lemma same_structure_MARK_SPLIT: "MARK_SPLIT h s = Inr h' \<Longrightarrow> same_structure h h'"
  using MARK_SPLIT_frame[of h s h'] by (simp add: same_structure_def)

lemma same_structure_put_split:
  "split_heap h s = Some S \<Longrightarrow> parent S' = parent S \<Longrightarrow> same_structure h (put_split h s S')"
  by (simp add: same_structure_def put_split_def)

lemma same_structure_xaccSplitSetBaseValue:
  "xaccSplitSetBaseValue h sp v b = Inr h' \<Longrightarrow> same_structure h h'"
  by (auto simp: xaccSplitSetBaseValue_def get_split_def get_acc_def
      bind_result_eq_Inr same_structure_put_split split: option.splits if_splits)

lemma same_structure_force_total:
  assumes "force_total h T s b = Inr h'"
  shows "same_structure h h'"
proof -
  from assms have "\<exists>v h1 h2 a.
      xaccSplitSetBaseValue h (Some s) (- v) b = Inr h1 \<and> MARK_SPLIT h1 s = Inr h2
      \<and> h' = xaccAccountRecomputeBalance h2 a"
    by (auto simp: force_total_def bind_result_eq_Inr)
  then obtain v h1 h2 a where
    1: "xaccSplitSetBaseValue h (Some s) (- v) b = Inr h1" and
    2: "MARK_SPLIT h1 s = Inr h2" and
    3: "h' = xaccAccountRecomputeBalance h2 a"
    by blast
  have "same_structure h2 h'" using 3 by (simp add: xaccAccountRecomputeBalance_def)
  with same_structure_xaccSplitSetBaseValue[OF 1] same_structure_MARK_SPLIT[OF 2]
  show ?thesis by (blast intro: same_structure_trans)
qed

lemma same_structure_xaccSplitRebalance:
  assumes "xaccSplitRebalance n h sp = Inr h'"
  shows "same_structure h h'"
proof (cases n)
  case 0
  with assms show ?thesis by simp
next
  case (Suc m)
  with assms have body: "xaccSplitRebalance_body (xaccTransAppendSplit m) h sp = Inr h'" by simp
  then obtain S where S: "get_split h sp = Inr S"
    by (auto simp: xaccSplitRebalance_body_def bind_result_eq_Inr)
  show ?thesis
  proof (cases "parent S")
    case None
    with body S show ?thesis by (simp add: xaccSplitRebalance_body_def)
  next
    case (Some t)
    with body S obtain T where T: "trans_heap h t = Some T"
      by (auto simp: xaccSplitRebalance_body_def bind_result_eq_Inr get_trans_def split: option.splits)
    show ?thesis
    proof (cases "DEFER_REBALANCE AND open_flags T \<noteq> 0")
      case True
      with body S Some T show ?thesis by (simp add: xaccSplitRebalance_body_def get_trans_def)
    next
      case False
      with body S Some T obtain r where r: "rebalance_base_currency h S T = Inr r"
        by (auto simp: xaccSplitRebalance_body_def bind_result_eq_Inr get_trans_def)
      show ?thesis
      proof (cases r)
        case None
        with body S Some T False r show ?thesis
          by (simp add: xaccSplitRebalance_body_def get_trans_def)
      next
        case (Some b)
        note rb = Some
        show ?thesis
        proof (cases "sp = Some (hd (splits T))")
          case False
          with body S \<open>parent S = Some t\<close> T \<open>\<not> DEFER_REBALANCE AND open_flags T \<noteq> 0\<close> r rb
          have "force_total h T (hd (splits T)) b = Inr h'"
            by (simp add: xaccSplitRebalance_body_def get_trans_def)
          then show ?thesis by (rule same_structure_force_total)
        next
          case True
          with body S \<open>parent S = Some t\<close> T \<open>\<not> DEFER_REBALANCE AND open_flags T \<noteq> 0\<close> r rb
          obtain s1 where s1: "array_read (splits T) 1 = Inr s1" and
            rest: "(case s1 of Some s \<Rightarrow> force_total h T s b
                    | None \<Rightarrow> if force_double_entry h \<noteq> 0 \<and> \<not> DEQ 0 (damount S)
                         then create_balancing_split (xaccTransAppendSplit m) h t sp S
                         else Inr h) = Inr h'"
            by (auto simp: xaccSplitRebalance_body_def get_trans_def bind_result_eq_Inr)
          show ?thesis
          proof (cases s1)
            case (Some s)
            with rest have "force_total h T s b = Inr h'" by simp
            then show ?thesis by (rule same_structure_force_total)
          next
            case None
            show ?thesis
            proof (cases "force_double_entry h \<noteq> 0 \<and> \<not> DEQ 0 (damount S)")
              case False
              with rest None show ?thesis by auto
            next
              case True
              from s1 None have ne: "splits T \<noteq> []"
                by (auto simp: array_read_def split: if_splits)
              from \<open>\<not> DEFER_REBALANCE AND open_flags T \<noteq> 0\<close>
              have nd: "DEFER_REBALANCE AND open_flags T = 0" by simp
              from create_balancing_split_fails[OF _ T nd ne, of m sp S] True
              obtain e where "create_balancing_split (xaccTransAppendSplit m) h t sp S = Inl e"
                by blast
              with rest None True show ?thesis by simp
            qed
          qed
        qed
      qed
    qed
  qed
qed

lemma same_structure_xaccTransRebalance:
  "xaccTransRebalance n h tr = Inr h' \<Longrightarrow> same_structure h h'"
  by (auto simp: xaccTransRebalance_def xaccTransRebalance_with_def bind_result_eq_Inr
      dest: same_structure_xaccSplitRebalance)

subsection \<open>The back-reference invariant\<close>

lemma xaccTransRemoveSplit_loop_filter:
  "xaccTransRemoveSplit_loop s xs = filter (\<lambda>x. x \<noteq> s) xs"
  by (induction xs) auto

lemma parent_inv_D:
  "parent_inv h \<Longrightarrow> trans_heap h t = Some T \<Longrightarrow> s \<in> set (splits T) \<Longrightarrow>
     \<exists>S. split_heap h s = Some S \<and> parent S = Some t"
  unfolding parent_inv_def by blast

lemma parent_inv_xaccTransRemoveSplit:
  assumes inv: "parent_inv h"
    and S: "split_heap h s = Some S" and par: "parent S = Some t \<or> parent S = None"
    and rm: "xaccTransRemoveSplit h (Some t) (Some s) = Inr h'"
  shows "parent_inv h' \<and> map_option parent (split_heap h' s) = Some None
     \<and> (\<forall>T'. trans_heap h' t = Some T' \<longrightarrow> s \<notin> set (splits T'))"
proof -
  from rm S obtain T where T: "trans_heap h t = Some T"
    and h': "h' = put_trans (put_split h s (S\<lparr>parent := None\<rparr>)) t
               (T\<lparr>splits := filter (\<lambda>x. x \<noteq> s) (splits T)\<rparr>)"
    by (auto simp: xaccTransRemoveSplit_def get_split_def get_trans_def put_split_def Let_def
        xaccTransRemoveSplit_loop_filter split: option.splits)
  have elsewhere: "s \<notin> set (splits T')" if "trans_heap h t' = Some T'" "t' \<noteq> t" for t' T'
    using parent_inv_D[OF inv that(1), of s] S par that(2) by auto
  have "parent_inv h'"
    unfolding parent_inv_def
  proof (intro allI impI ballI)
    fix t' T' x
    assume a: "trans_heap h' t' = Some T'" "x \<in> set (splits T')"
    show "\<exists>X. split_heap h' x = Some X \<and> parent X = Some t'"
    proof (cases "t' = t")
      case True
      with a h' have x: "x \<in> set (splits T)" "x \<noteq> s" by (auto simp: put_trans_def)
      from parent_inv_D[OF inv T x(1)] x(2) True show ?thesis
        by (simp add: h' put_trans_def put_split_def)
    next
      case False
      with a h' have T': "trans_heap h t' = Some T'" by (simp add: put_trans_def put_split_def)
      from elsewhere[OF T' False] a(2) have "x \<noteq> s" by auto
      with parent_inv_D[OF inv T' a(2)] show ?thesis
        by (simp add: h' put_trans_def put_split_def)
    qed
  qed
  then show ?thesis by (simp add: h' put_trans_def put_split_def)
qed

lemma not_in_sequence:
  "parent_inv h \<Longrightarrow> split_heap h s = Some S \<Longrightarrow> parent S = None \<Longrightarrow>
     trans_heap h t = Some T \<Longrightarrow> s \<notin> set (splits T)"
  by (auto dest: parent_inv_D)

lemma parent_inv_xaccTransAppendSplit:
  assumes inv: "parent_inv h"
    and app: "xaccTransAppendSplit n h (Some t) (Some s) = Inr h'"
  shows "parent_inv h' \<and> map_option parent (split_heap h' s) = Some (Some t)
     \<and> (\<exists>T'. trans_heap h' t = Some T' \<and> s \<in> set (splits T'))"
proof -
  from app obtain m where n: "n = Suc m" by (cases n) auto
  with app have body: "xaccTransAppendSplit_body (xaccSplitRebalance m) h (Some t) (Some s) = Inr h'"
    by simp
  then obtain h1 S h3 S3 T where
    chk: "CHECK_OPEN h t = Inr h1" and S: "get_split h1 (Some s) = Inr S" and
    old: "(case parent S of None \<Rightarrow> Inr h1
           | Some oldtrans \<Rightarrow>
               bind_result (xaccTransRemoveSplit h1 (Some oldtrans) (Some s)) (\<lambda>h2.
                 xaccTransRebalance_with (xaccSplitRebalance m) h2 (Some oldtrans))) = Inr h3" and
    S3: "get_split h3 (Some s) = Inr S3" and
    T: "get_trans (put_split h3 s (S3\<lparr>parent := Some t\<rparr>)) (Some t) = Inr T" and
    reb: "xaccSplitRebalance m
            (put_trans (put_split h3 s (S3\<lparr>parent := Some t\<rparr>)) t (T\<lparr>splits := splits T @ [s]\<rparr>))
            (Some s) = Inr h'"
    by (auto simp: xaccTransAppendSplit_body_def bind_result_eq_Inr Let_def)
  have ss1: "same_structure h h1"
    using chk by (auto simp: CHECK_OPEN_def bind_result_eq_Inr split: if_splits)
  have inv1: "parent_inv h1" by (rule parent_inv_same_structure[OF inv ss1])
  from S have S1: "split_heap h1 s = Some S"
    by (auto simp: get_split_def split: option.splits)
  have inv3: "parent_inv h3 \<and> map_option parent (split_heap h3 s) = Some None"
  proof (cases "parent S")
    case None
    with old S1 inv1 show ?thesis by simp
  next
    case (Some oldtrans)
    with old obtain h2 where
      rm: "xaccTransRemoveSplit h1 (Some oldtrans) (Some s) = Inr h2" and
      rb: "xaccTransRebalance m h2 (Some oldtrans) = Inr h3"
      by (auto simp: bind_result_eq_Inr xaccTransRebalance_def)
    from parent_inv_xaccTransRemoveSplit[OF inv1 S1 _ rm] Some
    have 2: "parent_inv h2" "map_option parent (split_heap h2 s) = Some None" by auto
    from same_structure_xaccTransRebalance[OF rb] 2 show ?thesis
      by (auto intro: parent_inv_same_structure simp: same_structure_def)
  qed
  from S3 have S3': "split_heap h3 s = Some S3"
    by (auto simp: get_split_def split: option.splits)
  with inv3 have p3: "parent S3 = None" by auto
  let ?h4 = "put_split h3 s (S3\<lparr>parent := Some t\<rparr>)"
  let ?h5 = "put_trans ?h4 t (T\<lparr>splits := splits T @ [s]\<rparr>)"
  from T have T3: "trans_heap h3 t = Some T"
    by (auto simp: get_trans_def put_split_def split: option.splits)
  have inv5: "parent_inv ?h5"
    unfolding parent_inv_def
  proof (intro allI impI ballI)
    fix t' T' x
    assume a: "trans_heap ?h5 t' = Some T'" "x \<in> set (splits T')"
    show "\<exists>X. split_heap ?h5 x = Some X \<and> parent X = Some t'"
    proof (cases "x = s")
      case True
      have "t' = t"
      proof (rule ccontr)
        assume "t' \<noteq> t"
        with a have "trans_heap h3 t' = Some T'" by (simp add: put_trans_def put_split_def)
        from not_in_sequence[OF conjunct1[OF inv3] S3' p3 this] a(2) True show False by simp
      qed
      with True show ?thesis by (simp add: put_trans_def put_split_def)
    next
      case False
      show ?thesis
      proof (cases "t' = t")
        case True
        with a False have "x \<in> set (splits T)" by (auto simp: put_trans_def)
        from parent_inv_D[OF conjunct1[OF inv3] T3 this] False True show ?thesis
          by (simp add: put_trans_def put_split_def)
      next
        case nt: False
        with a have "trans_heap h3 t' = Some T'" by (simp add: put_trans_def put_split_def)
        from parent_inv_D[OF conjunct1[OF inv3] this a(2)] False show ?thesis
          by (simp add: put_trans_def put_split_def)
      qed
    qed
  qed
  have 5: "map_option parent (split_heap ?h5 s) = Some (Some t)"
    "\<exists>T'. trans_heap ?h5 t = Some T' \<and> s \<in> set (splits T')"
    by (simp_all add: put_trans_def put_split_def)
  from same_structure_xaccSplitRebalance[OF reb] inv5 5 show ?thesis
    by (auto intro: parent_inv_same_structure simp: same_structure_def)
qed

lemma same_structure_xaccAccountRemoveSplit:
  "xaccAccountRemoveSplit h a s = Inr h' \<Longrightarrow> same_structure h h'"
  by (auto simp: xaccAccountRemoveSplit_def Let_def get_split_def emit_def put_split_def
      same_structure_def bind_result_eq_Inr split: option.splits)

lemma same_structure_detach_split:
  assumes "detach_split h s = Inr h'"
  shows "same_structure h h'"
proof -
  from assms have "\<exists>h1 h2 a b. MARK_SPLIT h s = Inr h1 \<and> xaccAccountRemoveSplit h1 a s = Inr h2
      \<and> h' = xaccAccountRecomputeBalance h2 b"
    by (auto simp: detach_split_def bind_result_eq_Inr)
  then obtain h1 h2 a b where 1: "MARK_SPLIT h s = Inr h1"
    and 2: "xaccAccountRemoveSplit h1 a s = Inr h2"
    and 3: "h' = xaccAccountRecomputeBalance h2 b" by blast
  have "same_structure h2 h'" using 3 by (simp add: xaccAccountRecomputeBalance_def)
  with same_structure_MARK_SPLIT[OF 1] same_structure_xaccAccountRemoveSplit[OF 2]
  show ?thesis by (blast intro: same_structure_trans)
qed

lemma xaccSplitDestroy_loop_result:
  "xaccSplitDestroy_loop h t s xs m n = Inr (h', m', n') \<Longrightarrow>
     same_structure h h' \<and> m' = (m \<or> s \<in> set xs) \<and> n' = n + int (length xs)"
proof (induction xs arbitrary: h m n)
  case Nil
  then show ?case by simp
next
  case (Cons x xs)
  from Cons.prems obtain h1 where
    1: "MARK_SPLIT (emit h (SplitDestroyTrace t n x)) x = Inr h1" and
    2: "xaccSplitDestroy_loop h1 t s xs (m \<or> x = s) (n + 1) = Inr (h', m', n')"
    by (auto simp: bind_result_eq_Inr)
  have "same_structure h h1"
    using same_structure_MARK_SPLIT[OF 1] same_structure_emit[of h]
    by (blast intro: same_structure_trans)
  with Cons.IH[OF 2] show ?case
    by (auto intro: same_structure_trans)
qed

lemma xaccFreeTransaction_loop_frame:
  "xaccFreeTransaction_loop h xs = Inr h' \<Longrightarrow>
     trans_heap h' = trans_heap h \<and> (\<forall>p. p \<notin> set xs \<longrightarrow> split_heap h' p = split_heap h p)"
proof (induction xs arbitrary: h)
  case Nil
  then show ?case by simp
next
  case (Cons x xs)
  from Cons.prems obtain h1 where
    1: "xaccFreeSplit h (Some x) = Inr h1" and 2: "xaccFreeTransaction_loop h1 xs = Inr h'"
    by (auto simp: bind_result_eq_Inr)
  from 1 have "trans_heap h1 = trans_heap h \<and> (\<forall>p. p \<noteq> x \<longrightarrow> split_heap h1 p = split_heap h p)"
    by (auto simp: xaccFreeSplit_def split: option.splits)
  with Cons.IH[OF 2] show ?case by auto
qed

lemma parent_inv_xaccFreeTransaction:
  assumes inv: "parent_inv h" and fr: "xaccFreeTransaction h (Some t) = Inr h'"
  shows "parent_inv h'"
proof -
  from fr obtain T h1 where T: "trans_heap h t = Some T"
    and loop: "xaccFreeTransaction_loop h (splits T) = Inr h1"
    and h': "h' = h1\<lparr>trans_heap := (trans_heap h1)(t := None)\<rparr>"
    by (auto simp: xaccFreeTransaction_def bind_result_eq_Inr get_trans_def split: option.splits)
  note frame = xaccFreeTransaction_loop_frame[OF loop]
  show ?thesis
    unfolding parent_inv_def
  proof (intro allI impI ballI)
    fix t' T' x
    assume a: "trans_heap h' t' = Some T'" "x \<in> set (splits T')"
    then have nt: "t' \<noteq> t" and T': "trans_heap h t' = Some T'"
      using frame by (auto simp: h' split: if_splits)
    from parent_inv_D[OF inv T' a(2)] obtain X where X: "split_heap h x = Some X" "parent X = Some t'"
      by blast
    have "x \<notin> set (splits T)"
      using parent_inv_D[OF inv T, of x] X nt by auto
    with frame X show "\<exists>X. split_heap h' x = Some X \<and> parent X = Some t'"
      by (simp add: h')
  qed
qed

lemma parent_inv_xaccSplitDestroy_unlink:
  assumes inv: "parent_inv h" and S: "split_heap h s = Some S" and par: "parent S = Some t"
    and un: "xaccSplitDestroy_unlink n h t s = Inr h'"
  shows "parent_inv h'"
proof -
  from un have "\<exists>h3 h4 (S4::Split) h5 h6. MARK_SPLIT h s = Inr h3
      \<and> xaccTransRemoveSplit h3 (Some t) (Some s) = Inr h4
      \<and> xaccAccountRemoveSplit h4 (acc_ptr S4) s = Inr h5
      \<and> xaccFreeSplit (xaccAccountRecomputeBalance h5 (acc_ptr S4)) (Some s) = Inr h6
      \<and> xaccTransRebalance n h6 (Some t) = Inr h'"
    unfolding xaccSplitDestroy_unlink_def bind_result_eq_Inr by blast
  then obtain h3 h4 and S4 :: Split and h5 h6 where
      m: "MARK_SPLIT h s = Inr h3" and
      rm: "xaccTransRemoveSplit h3 (Some t) (Some s) = Inr h4" and
      ar: "xaccAccountRemoveSplit h4 (acc_ptr S4) s = Inr h5" and
      fs: "xaccFreeSplit (xaccAccountRecomputeBalance h5 (acc_ptr S4)) (Some s) = Inr h6" and
      rb: "xaccTransRebalance n h6 (Some t) = Inr h'"
    by blast
  have ss3: "same_structure h h3" by (rule same_structure_MARK_SPLIT[OF m])
  have inv3: "parent_inv h3" by (rule parent_inv_same_structure[OF inv ss3])
  from ss3 have "map_option parent (split_heap h3 s) = map_option parent (split_heap h s)"
    by (simp add: same_structure_def)
  with S par obtain S3 where S3: "split_heap h3 s = Some S3" "parent S3 = Some t"
    by (cases "split_heap h3 s") auto
  from parent_inv_xaccTransRemoveSplit[OF inv3 S3(1) _ rm] S3(2)
  have 4: "parent_inv h4" "map_option parent (split_heap h4 s) = Some None" by auto
  let ?h5' = "xaccAccountRecomputeBalance h5 (acc_ptr S4)"
  have ss5: "same_structure h4 ?h5'"
    using same_structure_xaccAccountRemoveSplit[OF ar]
    by (auto simp: xaccAccountRecomputeBalance_def emit_def same_structure_def)
  have inv5: "parent_inv ?h5'" by (rule parent_inv_same_structure[OF 4(1) ss5])
  from ss5 4(2) have p5: "map_option parent (split_heap ?h5' s) = Some None"
    by (simp add: same_structure_def)
  from fs have h6: "h6 = ?h5'\<lparr>split_heap := (split_heap ?h5')(s := None)\<rparr>"
    by (auto simp: xaccFreeSplit_def split: option.splits)
  have inv6: "parent_inv h6"
    unfolding parent_inv_def
  proof (intro allI impI ballI)
    fix t' T' x
    assume a: "trans_heap h6 t' = Some T'" "x \<in> set (splits T')"
    then have T': "trans_heap ?h5' t' = Some T'" by (simp add: h6)
    from parent_inv_D[OF inv5 T' a(2)] p5 have "x \<noteq> s" by auto
    with parent_inv_D[OF inv5 T' a(2)]
    show "\<exists>X. split_heap h6 x = Some X \<and> parent X = Some t'" by (simp add: h6)
  qed
  from same_structure_xaccTransRebalance[OF rb] inv6 show ?thesis
    by (rule parent_inv_same_structure[rotated])
qed

lemma parent_inv_xaccSplitDestroy_teardown:
  assumes inv: "parent_inv h" and td: "xaccSplitDestroy_teardown h t = Inr h'"
  shows "parent_inv h'"
proof -
  let ?h3 = "xaccTransWriteLog h t CHR ''D''"
  have ss3: "same_structure h ?h3"
    by (simp add: xaccTransWriteLog_def)
  from td have "\<exists>s0 h4 s1. detach_split ?h3 s0 = Inr h4
      \<and> (case s1 of None \<Rightarrow> Inr h4
           | Some s \<Rightarrow> bind_result (detach_split h4 s) (\<lambda>h5.
               xaccFreeTransaction h5 (Some t))) = Inr h'"
    by (fastforce simp: xaccSplitDestroy_teardown_def bind_result_eq_Inr Let_def
        split: option.splits)
  then obtain s0 h4 s1 where
      d0: "detach_split ?h3 s0 = Inr h4" and
      tail: "(case s1 of None \<Rightarrow> Inr h4
               | Some s \<Rightarrow> bind_result (detach_split h4 s) (\<lambda>h5.
                     xaccFreeTransaction h5 (Some t))) = Inr h'"
    by blast
  have ss4: "same_structure h h4"
    by (rule same_structure_trans[OF ss3 same_structure_detach_split[OF d0]])
  have inv4: "parent_inv h4" by (rule parent_inv_same_structure[OF inv ss4])
  show ?thesis
  proof (cases s1)
    case None
    with tail inv4 show ?thesis by simp
  next
    case (Some x)
    with tail obtain h5 where d1: "detach_split h4 x = Inr h5"
      and fr: "xaccFreeTransaction h5 (Some t) = Inr h'"
      by (auto simp: bind_result_eq_Inr)
    have "parent_inv h5"
      by (rule parent_inv_same_structure[OF inv4 same_structure_detach_split[OF d1]])
    then show ?thesis using fr by (rule parent_inv_xaccFreeTransaction)
  qed
qed

lemma parent_inv_xaccSplitDestroy:
  assumes inv: "parent_inv h" and des: "xaccSplitDestroy n h (Some s) = Inr h'"
  shows "parent_inv h'"
proof -
  from des obtain S where S: "split_heap h s = Some S"
    by (auto simp: xaccSplitDestroy_def get_split_def split: option.splits)
  with des obtain t where par: "parent S = Some t"
    by (auto simp: xaccSplitDestroy_def get_split_def split: option.splits)
  with des S obtain T where T: "trans_heap h t = Some T"
    by (auto simp: xaccSplitDestroy_def get_split_def get_trans_def split: option.splits)
  with des S par obtain h1 where chk: "CHECK_OPEN h t = Inr h1"
    by (auto simp: xaccSplitDestroy_def get_split_def get_trans_def bind_result_eq_Inr)
  with des S par T obtain r where
    loop0: "xaccSplitDestroy_loop h1 t s (splits T) False 0 = Inr r"
    by (auto simp: xaccSplitDestroy_def get_split_def get_trans_def bind_result_eq_Inr)
  obtain h2 ismember numsplits where r: "r = (h2, ismember, numsplits)"
    by (cases r) auto
  note loop = loop0[unfolded r]
  from des S par T chk loop have rest:
    "(if 2 < numsplits then xaccSplitDestroy_unlink n h2 t s
      else xaccSplitDestroy_teardown h2 t) = Inr h'"
    by (auto simp: xaccSplitDestroy_def get_split_def get_trans_def split: if_splits)
  have ss1: "same_structure h h1"
    using chk by (auto simp: CHECK_OPEN_def bind_result_eq_Inr split: if_splits)
  from xaccSplitDestroy_loop_result[OF loop] have ss2: "same_structure h1 h2" by simp
  have ss: "same_structure h h2" by (rule same_structure_trans[OF ss1 ss2])
  have inv2: "parent_inv h2" by (rule parent_inv_same_structure[OF inv ss])
  from ss have "map_option parent (split_heap h2 s) = map_option parent (split_heap h s)"
    by (simp add: same_structure_def)
  with S par obtain S2 where S2: "split_heap h2 s = Some S2" "parent S2 = Some t"
    by (cases "split_heap h2 s") auto
  show ?thesis
  proof (cases "2 < numsplits")
    case True
    with rest have "xaccSplitDestroy_unlink n h2 t s = Inr h'" by simp
    from parent_inv_xaccSplitDestroy_unlink[OF inv2 S2 this] show ?thesis .
  next
    case False
    with rest have "xaccSplitDestroy_teardown h2 t = Inr h'" by simp
    from parent_inv_xaccSplitDestroy_teardown[OF inv2 this] show ?thesis .
  qed
qed

text \<open>
  C4.  In a state where every split of every sequence names its transaction as parent,
  the operations that append or remove splits keep it so whenever they return.  After
  xaccTransAppendSplit the split is in the transaction's sequence with that transaction
  as parent.  After xaccTransRemoveSplit of a split from the transaction that holds it
  (more generally: a split whose parent is that transaction or none, as every caller
  passes it) the split has left the sequence and its parent reference is cleared.
  xaccSplitDestroy and xaccSplitRebalance, which contains the creation of the balancing
  split, preserve the invariant as well.
\<close>

theorem parent_back_reference_maintained:
  assumes inv: "parent_inv h"
  shows "(xaccTransAppendSplit n h (Some t) (Some s) = Inr h1 \<longrightarrow>
            parent_inv h1 \<and> map_option parent (split_heap h1 s) = Some (Some t)
            \<and> (\<exists>T'. trans_heap h1 t = Some T' \<and> s \<in> set (splits T')))
     \<and> ((\<exists>S. split_heap h s = Some S \<and> (parent S = Some t \<or> parent S = None)) \<longrightarrow>
          xaccTransRemoveSplit h (Some t) (Some s) = Inr h2 \<longrightarrow>
            parent_inv h2 \<and> map_option parent (split_heap h2 s) = Some None
            \<and> (\<forall>T'. trans_heap h2 t = Some T' \<longrightarrow> s \<notin> set (splits T')))
     \<and> (xaccSplitDestroy n h (Some s) = Inr h3 \<longrightarrow> parent_inv h3)
     \<and> (xaccSplitRebalance n h sp = Inr h4 \<longrightarrow> parent_inv h4)"
proof (intro conjI impI)
  assume "xaccTransAppendSplit n h (Some t) (Some s) = Inr h1"
  from parent_inv_xaccTransAppendSplit[OF inv this]
  show "parent_inv h1" "map_option parent (split_heap h1 s) = Some (Some t)"
    "\<exists>T'. trans_heap h1 t = Some T' \<and> s \<in> set (splits T')" by blast+
next
  assume a: "\<exists>S. split_heap h s = Some S \<and> (parent S = Some t \<or> parent S = None)"
    "xaccTransRemoveSplit h (Some t) (Some s) = Inr h2"
  then obtain S where S: "split_heap h s = Some S" "parent S = Some t \<or> parent S = None"
    by blast
  from parent_inv_xaccTransRemoveSplit[OF inv S a(2)]
  show "parent_inv h2" "map_option parent (split_heap h2 s) = Some None"
    "\<forall>T'. trans_heap h2 t = Some T' \<longrightarrow> s \<notin> set (splits T')" by blast+
next
  assume "xaccSplitDestroy n h (Some s) = Inr h3"
  from parent_inv_xaccSplitDestroy[OF inv this] show "parent_inv h3" .
next
  assume "xaccSplitRebalance n h sp = Inr h4"
  from same_structure_xaccSplitRebalance[OF this] inv show "parent_inv h4"
    by (rule parent_inv_same_structure[rotated])
qed

theorem parent_back_reference_maintained_witness:
  "parent_inv triple_ledger
   \<and> (\<exists>h'. xaccTransAppendSplit 4 triple_ledger (Some 0) (Some 3) = Inr h' \<and> parent_inv h'
         \<and> map_option parent (split_heap h' 3) = Some (Some 0))
   \<and> map_option parent (split_heap triple_ledger 2) = Some (Some 0)
   \<and> (\<exists>h'. xaccTransRemoveSplit triple_ledger (Some 0) (Some 2) = Inr h' \<and> parent_inv h'
         \<and> map_option parent (split_heap h' 2) = Some None)
   \<and> (\<exists>h'. xaccSplitDestroy 4 triple_ledger (Some 1) = Inr h' \<and> parent_inv h')
   \<and> (\<exists>h'. xaccSplitRebalance 4 triple_ledger (Some 1) = Inr h' \<and> parent_inv h')"
proof -
  have inv: "parent_inv triple_ledger"
    by (auto simp: parent_inv_def triple_ledger_def pair_ledger_def open_trans_def
        split: if_splits)
  have a: "\<exists>h'. xaccTransAppendSplit 4 triple_ledger (Some 0) (Some 3) = Inr h'"
    by (simp add: triple_ledger_def pair_ledger_def eval_defs numeral_fuel cong: bind_result_cong)
  have p: "map_option parent (split_heap triple_ledger 2) = Some (Some 0)"
    "\<exists>S. split_heap triple_ledger 2 = Some S \<and> (parent S = Some 0 \<or> parent S = None)"
    by (simp_all add: triple_ledger_def pair_ledger_def)
  have r: "\<exists>h'. xaccTransRemoveSplit triple_ledger (Some 0) (Some 2) = Inr h'"
    by (simp add: triple_ledger_def pair_ledger_def eval_defs cong: bind_result_cong)
  have d: "\<exists>h'. xaccSplitDestroy 4 triple_ledger (Some 1) = Inr h'"
    by (simp add: triple_ledger_def pair_ledger_def eval_defs numeral_fuel cong: bind_result_cong)
  have b: "\<exists>h'. xaccSplitRebalance 4 triple_ledger (Some 1) = Inr h'"
    by (simp add: triple_ledger_def pair_ledger_def eval_defs numeral_fuel cong: bind_result_cong)
  from a obtain ha where ha: "xaccTransAppendSplit 4 triple_ledger (Some 0) (Some 3) = Inr ha" ..
  from r obtain hr where hr: "xaccTransRemoveSplit triple_ledger (Some 0) (Some 2) = Inr hr" ..
  from d obtain hd where hd: "xaccSplitDestroy 4 triple_ledger (Some 1) = Inr hd" ..
  from b obtain hb where hb: "xaccSplitRebalance 4 triple_ledger (Some 1) = Inr hb" ..
  from parent_back_reference_maintained[OF inv, of 4 0 3 ha] ha
  have 1: "parent_inv ha \<and> map_option parent (split_heap ha 3) = Some (Some 0)" by blast
  from parent_back_reference_maintained[OF inv, of _ 0 2 _ hr] p(2) hr
  have 2: "parent_inv hr \<and> map_option parent (split_heap hr 2) = Some None" by blast
  from parent_back_reference_maintained[OF inv, of 4 _ 1 _ _ hd] hd
  have 3: "parent_inv hd" by blast
  from parent_back_reference_maintained[OF inv, of 4 _ _ _ _ _ "Some 1" hb] hb
  have 4: "parent_inv hb" by blast
  from inv p(1) ha hr hd hb 1 2 3 4 show ?thesis by blast
qed

subsection \<open>The zero-sum property\<close>








lemma same_values_refl [simp]: "same_values h h"
  by (simp add: same_values_def)


lemma same_values_emit [simp]: "same_values h (emit h e)"
  by (simp add: same_values_def emit_def)

















end
